theory Spec2Isabelle
  imports Main
begin

section \<open>JavaScript values\<close>

text \<open>
  The gateway client (\<^verbatim>\<open>src/util/Client.js\<close>) works on values produced by
  \<^verbatim>\<open>JSON.parse\<close>. A parsed value is \<^verbatim>\<open>null\<close>, a boolean, a number, a string, an
  array or a plain object holding its own properties in insertion order with distinct
  keys; \<open>JUndefined\<close> is what reading an absent property gives. Numbers are the integers
  (opcodes, sequence numbers, intervals and channel types are integers on the wire).
\<close>

datatype json =
    JUndefined
  | JNull
  | JBool bool
  | JNum int
  | JStr string
  | JArr "json list"
  | JObj "(string \<times> json) list"

datatype js_error =
    TypeError
  | SyntaxError
  | RequestError
  | CallbackError string

text \<open>
  \<open>obj.key\<close> for an identifier key that no prototype defines (\<^verbatim>\<open>op\<close>, \<^verbatim>\<open>s\<close>, \<^verbatim>\<open>t\<close>,
  \<^verbatim>\<open>d\<close>, \<^verbatim>\<open>content\<close>, ...): reading a property of \<^verbatim>\<open>null\<close> or \<^verbatim>\<open>undefined\<close> throws a
  TypeError, an object gives its own property or \<^verbatim>\<open>undefined\<close>, every other value
  gives \<^verbatim>\<open>undefined\<close>.
\<close>

fun get_prop :: "json \<Rightarrow> string \<Rightarrow> js_error + json" where
  "get_prop JUndefined k = Inl TypeError"
| "get_prop JNull k = Inl TypeError"
| "get_prop (JObj kvs) k = Inr (case map_of kvs k of None \<Rightarrow> JUndefined | Some v \<Rightarrow> v)"
| "get_prop v k = Inr JUndefined"

text \<open>\<open>v[0]\<close>: the first UTF-16 unit of a string, the first element of an array, the
  property \<^verbatim>\<open>"0"\<close> of an object.\<close>

fun index0 :: "json \<Rightarrow> js_error + json" where
  "index0 JUndefined = Inl TypeError"
| "index0 JNull = Inl TypeError"
| "index0 (JStr s) = Inr (case s of [] \<Rightarrow> JUndefined | c # _ \<Rightarrow> JStr [c])"
| "index0 (JArr xs) = Inr (case xs of [] \<Rightarrow> JUndefined | x # _ \<Rightarrow> x)"
| "index0 (JObj kvs) = Inr (case map_of kvs ''0'' of None \<Rightarrow> JUndefined | Some v \<Rightarrow> v)"
| "index0 v = Inr JUndefined"

text \<open>Truthiness, as tested by \<^verbatim>\<open>if (v)\<close>.\<close>

fun truthy :: "json \<Rightarrow> bool" where
  "truthy JUndefined = False"
| "truthy JNull = False"
| "truthy (JBool b) = b"
| "truthy (JNum n) = (n \<noteq> 0)"
| "truthy (JStr s) = (s \<noteq> [])"
| "truthy (JArr xs) = True"
| "truthy (JObj kvs) = True"

subsection \<open>Conversion to a string\<close>

fun string_of_nat :: "nat \<Rightarrow> string" where
  "string_of_nat n =
     (if n < 10 then [char_of (48 + n)]
      else string_of_nat (n div 10) @ [char_of (48 + n mod 10)])"

declare string_of_nat.simps [simp del]

definition string_of_int :: "int \<Rightarrow> string" where
  "string_of_int i = (if i < 0 then CHR ''-'' # string_of_nat (nat (- i)) else string_of_nat (nat i))"

text \<open>
  \<^verbatim>\<open>ToString\<close> (which is also \<^verbatim>\<open>ToPropertyKey\<close> for these values), as used by template
  literals and by \<^verbatim>\<open>table[v]\<close>. An array joins its elements with commas, \<^verbatim>\<open>null\<close> and
  \<^verbatim>\<open>undefined\<close> elements giving the empty string. A parsed object has no callable own
  method: with an own \<^verbatim>\<open>toString\<close> property the conversion throws a TypeError, without
  one it is \<^verbatim>\<open>Object.prototype.toString\<close>.
\<close>

fun js_toString :: "json \<Rightarrow> js_error + string"
  and js_join :: "json list \<Rightarrow> js_error + string" where
  "js_toString JUndefined = Inr ''undefined''"
| "js_toString JNull = Inr ''null''"
| "js_toString (JBool b) = Inr (if b then ''true'' else ''false'')"
| "js_toString (JNum n) = Inr (string_of_int n)"
| "js_toString (JStr s) = Inr s"
| "js_toString (JArr xs) = js_join xs"
| "js_toString (JObj kvs) =
     (if ''toString'' \<in> fst ` set kvs then Inl TypeError else Inr ''[object Object]'')"
| "js_join [] = Inr []"
| "js_join (x # xs) =
     (case (if x = JUndefined \<or> x = JNull then Inr [] else js_toString x) of
        Inl e \<Rightarrow> Inl e
      | Inr s \<Rightarrow>
          (case xs of
             [] \<Rightarrow> Inr s
           | _ # _ \<Rightarrow> (case js_join xs of Inl e \<Rightarrow> Inl e | Inr r \<Rightarrow> Inr (s @ '','' @ r))))"

subsection \<open>String methods\<close>

text \<open>\<^verbatim>\<open>String.prototype.substr(start, length)\<close> on integer arguments.\<close>

definition substr :: "string \<Rightarrow> int \<Rightarrow> int \<Rightarrow> string" where
  "substr S start len =
     (let size = int (length S);
          intStart = (if start < 0 then max (size + start) 0 else min start size);
          intLength = min (max len 0) size;
          intEnd = min (intStart + intLength) size
      in take (nat (intEnd - intStart)) (drop (nat intStart) S))"

text \<open>\<^verbatim>\<open>s.indexOf(' ')\<close>: the index of the first space, or \<open>-1\<close>.\<close>

fun indexOf_space :: "string \<Rightarrow> int" where
  "indexOf_space [] = - 1"
| "indexOf_space (c # cs) =
     (if c = CHR '' '' then 0
      else (let i = indexOf_space cs in if i < 0 then - 1 else i + 1))"

text \<open>\<^verbatim>\<open>s.split(' ')[0]\<close>: the text before the first space (all of it when there is none).\<close>

definition split_space_first :: "string \<Rightarrow> string" where
  "split_space_first s = takeWhile (\<lambda>c. c \<noteq> CHR '' '') s"

text \<open>\<^verbatim>\<open>toLowerCase\<close> and \<^verbatim>\<open>toUpperCase\<close> on the ASCII letters; other characters are kept.\<close>

definition lower_char :: "char \<Rightarrow> char" where
  "lower_char c =
     (let n = (of_char c :: nat) in if 65 \<le> n \<and> n \<le> 90 then char_of (n + 32) else c)"

definition upper_char :: "char \<Rightarrow> char" where
  "upper_char c =
     (let n = (of_char c :: nat) in if 97 \<le> n \<and> n \<le> 122 then char_of (n - 32) else c)"

definition toLowerCase :: "string \<Rightarrow> string" where
  "toLowerCase s = map lower_char s"

definition toUpperCase :: "string \<Rightarrow> string" where
  "toUpperCase s = map upper_char s"

text \<open>\<^verbatim>\<open>s.replaceAll(' ', '_')\<close>.\<close>

definition replaceAll_space_underscore :: "string \<Rightarrow> string" where
  "replaceAll_space_underscore s = map (\<lambda>c. if c = CHR '' '' then CHR ''_'' else c) s"

section \<open>The client and its environment\<close>

text \<open>
  What the client does to the outside world is recorded as a list of events: calls of the
  logger \<^verbatim>\<open>this.loga\<close> (method, message, level argument), requests to the REST API
  (\<^verbatim>\<open>this._apiRequest\<close>, inherited from the base class \<^verbatim>\<open>Discord\<close>), operations on
  sockets and interval timers, and calls of the callbacks registered by the application.
  The logger, the REST client, the socket library and the timers are not part of
  \<^verbatim>\<open>Client.js\<close>: their calls are taken to return normally (the logger whichever of
  \<^verbatim>\<open>log\<close>, \<^verbatim>\<open>warn\<close>, \<^verbatim>\<open>warning\<close> and \<^verbatim>\<open>error\<close> is called).
\<close>

record frame =
  f_op :: int
  f_d :: json
  f_s :: json
  f_t :: json

datatype event =
    Log string string "nat option"
  | ApiRequest string string json
  | SocketCreate nat json
  | SocketOn nat string
  | SocketWrite nat frame
  | SocketEnd nat
  | InnerSocketEnd nat
  | SetInterval nat json
  | ClearInterval "nat option"
  | EventCallback string json
  | CommandCallback string json string

text \<open>A call either returns or throws; what it changed before throwing stays changed.\<close>

datatype outcome = Done | Threw js_error

text \<open>
  A registered callback is application code: the model records that it was called, with
  which arguments, and whether it returned or threw. It is not given the client to change.
  An event callback gets the payload object itself, which \<^verbatim>\<open>_handleDispatch\<close> reads
  again afterwards: with its outcome it gives the payload as it left it. \<open>payload_after\<close>
  is what the handler then sees: a primitive value cannot be changed, and an object or
  array stays one, with whatever properties the callback gave it. A command callback is
  the last thing its handler does, so the handler sees nothing of what it does to the
  payload.
  A registry (\<^verbatim>\<open>dispatchCallbacks\<close>, \<^verbatim>\<open>commandCallbacks\<close>, \<^verbatim>\<open>guilds\<close>) is a map holding
  what was stored in it; the properties every JavaScript object inherits are left out.
\<close>

type_synonym event_cb = "json \<Rightarrow> outcome \<times> json"
type_synonym command_cb = "json \<Rightarrow> string \<Rightarrow> outcome"

fun is_object :: "json \<Rightarrow> bool" where
  "is_object (JObj kvs) = True"
| "is_object (JArr xs) = True"
| "is_object v = False"

definition payload_after :: "json \<Rightarrow> json \<Rightarrow> json" where
  "payload_after data data' = (if is_object data \<and> is_object data' then data' else data)"

text \<open>
  The fields of \<^verbatim>\<open>Client\<close> as the constructor declares them (\<open>None\<close> is \<^verbatim>\<open>null\<close> for the
  two handles; \<open>token\<close> is set by the base class constructor), followed by what the
  runtime owns: the interval timers that are armed, and how many timers and sockets have
  been created so far (the next handle).
\<close>

record client =
  token :: json
  intents :: json
  isBot :: bool
  shardCount :: json
  socket :: "nat option"
  me :: json
  heartbeatIntervalObj :: "nat option"
  lastSequenceNum :: json
  heartbeatAcknowledged :: bool
  sessionID :: json
  resuming :: bool
  dispatchCallbacks :: "string \<rightharpoonup> event_cb"
  commandChar :: string
  commandCallbacks :: "string \<rightharpoonup> command_cb"
  guilds :: "string \<rightharpoonup> json"
  timers :: "nat list"
  timer_count :: nat
  socket_count :: nat

type_synonym action = "client \<Rightarrow> outcome \<times> event list \<times> client"

definition ret :: action where
  "ret st = (Done, [], st)"

definition emit :: "event \<Rightarrow> action" where
  "emit e st = (Done, [e], st)"

definition throw :: "js_error \<Rightarrow> action" where
  "throw e st = (Threw e, [], st)"

definition modify :: "(client \<Rightarrow> client) \<Rightarrow> action" where
  "modify f st = (Done, [], f st)"

text \<open>\<open>seq f g\<close>: statement \<open>f\<close>, then statement \<open>g\<close> unless \<open>f\<close> threw.\<close>

definition seq :: "action \<Rightarrow> action \<Rightarrow> action" where
  "seq f g st =
     (case f st of
        (Done, es, st') \<Rightarrow> (case g st' of (r, es', st'') \<Rightarrow> (r, es @ es', st''))
      | (Threw e, es, st') \<Rightarrow> (Threw e, es, st'))"

text \<open>\<open>lift v k\<close>: evaluate an expression that may throw, continue with its value.\<close>

definition lift :: "js_error + 'a \<Rightarrow> ('a \<Rightarrow> action) \<Rightarrow> action" where
  "lift v k = (case v of Inl e \<Rightarrow> throw e | Inr x \<Rightarrow> k x)"

section \<open>The gateway client\<close>

definition GatewayOpcodes :: "(string \<times> string) list" where
  "GatewayOpcodes =
     [(''0'', ''Dispatch''),
      (''1'', ''Heartbeat''),
      (''2'', ''Identify''),
      (''3'', ''Status Update''),
      (''4'', ''Voice State Update''),
      (''5'', ''Voice Server Ping''),
      (''6'', ''Resume''),
      (''7'', ''Reconnect''),
      (''8'', ''Request Guild Members''),
      (''9'', ''Invalid Session''),
      (''10'', ''Hello''),
      (''11'', ''Heartbeat ACK'')]"

text \<open>\<open>${name}\<close> for the result of a table lookup.\<close>

definition show_name :: "string option \<Rightarrow> string" where
  "show_name n = (case n of None \<Rightarrow> ''undefined'' | Some s \<Rightarrow> s)"

text \<open>\<^verbatim>\<open>clearInterval(h)\<close>: the timer stops; \<^verbatim>\<open>null\<close> and stale handles are ignored.\<close>

definition clearInterval :: "nat option \<Rightarrow> action" where
  "clearInterval h st =
     (Done, [ClearInterval h],
      st\<lparr>timers := (case h of None \<Rightarrow> timers st | Some t \<Rightarrow> removeAll t (timers st))\<rparr>)"

text \<open>\<^verbatim>\<open>_sendOpcode(op, d, s = null, t = null)\<close>\<close>

definition sendOpcode :: "int \<Rightarrow> json \<Rightarrow> action" where
  "sendOpcode opc d =
     (let opName = map_of GatewayOpcodes (string_of_int opc);
          logLevel = (if opName = Some ''Heartbeat'' then 6 else 5)
      in seq (emit (Log ''log'' (''Sending OP '' @ string_of_int opc @ '': '' @ show_name opName)
                      (Some logLevel)))
             (\<lambda>st. case socket st of
                      None \<Rightarrow> throw TypeError st
                    | Some k \<Rightarrow>
                        emit (SocketWrite k \<lparr>f_op = opc, f_d = d, f_s = JNull, f_t = JNull\<rparr>) st))"

text \<open>
  \<^verbatim>\<open>_gatewayConnect()\<close> is asynchronous. Up to its \<^verbatim>\<open>await\<close> it logs and issues the
  request for the endpoint; the rest runs when the request has resolved, with the response.
\<close>

definition gatewayConnect :: action where
  "gatewayConnect =
     seq (emit (Log ''log'' ''Requesting endpoint'' None))
         (\<lambda>st. emit (ApiRequest ''GET'' (if isBot st then ''/gateway/bot'' else ''/gateway'')
                        JUndefined) st)"

definition gatewayConnect_resolved :: "json \<Rightarrow> action" where
  "gatewayConnect_resolved gateway =
     lift (get_prop gateway ''shards'') (\<lambda>shards.
     seq (modify (\<lambda>st. st\<lparr>shardCount := shards\<rparr>))
    (seq (\<lambda>st. if resuming st
                then (case socket st of
                        None \<Rightarrow> throw TypeError st
                      | Some k \<Rightarrow> seq (emit (InnerSocketEnd k)) (modify (\<lambda>st. st\<lparr>socket := None\<rparr>)) st)
                else ret st)
         (lift (get_prop gateway ''url'') (\<lambda>url.
          lift (js_toString url) (\<lambda>urlText.
          seq (emit (Log ''log'' (''Connecting to '' @ [CHR 0x27] @ urlText @ [CHR 0x27]) None))
              (\<lambda>st. let k = socket_count st
                     in (Done,
                         [SocketCreate k url, SocketOn k ''data'', SocketOn k ''end'',
                          SocketOn k ''host_disconnect''],
                         st\<lparr>socket := Some k, socket_count := Suc k\<rparr>)))))))"

text \<open>\<^verbatim>\<open>reconnect()\<close>\<close>

definition reconnect :: action where
  "reconnect =
     seq (modify (\<lambda>st. st\<lparr>resuming := True\<rparr>))
    (seq (\<lambda>st. clearInterval (heartbeatIntervalObj st) st)
    (seq (modify (\<lambda>st. st\<lparr>heartbeatAcknowledged := True\<rparr>))
         gatewayConnect))"

text \<open>\<^verbatim>\<open>_heartbeat()\<close>\<close>

definition heartbeat :: action where
  "heartbeat st =
     (if heartbeatAcknowledged st = False
      then seq (emit (Log ''warn'' ''No heartbeat ACK. Reconnecting'' None)) reconnect st
      else seq (modify (\<lambda>st. st\<lparr>heartbeatAcknowledged := False\<rparr>))
               (\<lambda>st. sendOpcode 1 (lastSequenceNum st) st) st)"

text \<open>\<^verbatim>\<open>_handleHello(interval)\<close>\<close>

definition identify_payload :: "client \<Rightarrow> json" where
  "identify_payload st =
     JObj [(''token'', token st),
           (''intents'', intents st),
           (''properties'', JObj []),
           (''compress'', JBool False),
           (''large_threshold'', JNum 100),
           (''presence'',
              JObj [(''since'', JNull),
                    (''status'', JStr ''online''),
                    (''game'', JNull),
                    (''afk'', JBool False)])]"

definition resume_payload :: "client \<Rightarrow> json" where
  "resume_payload st =
     JObj [(''token'', token st),
           (''session_id'', sessionID st),
           (''seq'', lastSequenceNum st)]"

text \<open>
  \<^verbatim>\<open>setInterval(callback, delay)\<close> of the runtime: the delay is converted to a number,
  which for a parsed value throws exactly when its conversion to a string does; then the
  timer is armed and its handle returned (passed to the continuation \<open>k\<close>).
\<close>

definition setInterval :: "json \<Rightarrow> (nat \<Rightarrow> action) \<Rightarrow> action" where
  "setInterval delay k =
     lift (js_toString delay) (\<lambda>_ st.
       let h = timer_count st
       in seq (emit (SetInterval h delay)) (k h)
              (st\<lparr>timers := timers st @ [h], timer_count := Suc h\<rparr>))"

definition handleHello :: "json \<Rightarrow> action" where
  "handleHello interval =
     setInterval interval (\<lambda>h.
     seq (modify (\<lambda>st. st\<lparr>heartbeatIntervalObj := Some h\<rparr>))
         (lift (js_toString interval) (\<lambda>ms.
          seq (emit (Log ''log'' (''Heartbeat set to '' @ ms @ ''ms'') None))
              (\<lambda>st. if resuming st = False
                     then sendOpcode 2 (identify_payload st) st
                     else sendOpcode 6 (resume_payload st) st))))"

text \<open>
  \<^verbatim>\<open>_emitEvent(eventName, eventData)\<close>. What follows the call in the caller is the
  continuation \<open>k\<close>; it gets the payload as the callback left it (the caller's variable
  still names the same object), and does not run when the callback throws.
\<close>

definition emitEvent :: "json \<Rightarrow> json \<Rightarrow> (json \<Rightarrow> action) \<Rightarrow> action" where
  "emitEvent eventName eventData k =
     lift (js_toString eventName) (\<lambda>key st.
       case dispatchCallbacks st key of
         None \<Rightarrow> k eventData st
       | Some cb \<Rightarrow>
           (case cb eventData of
              (Done, data') \<Rightarrow>
                seq (emit (EventCallback key eventData)) (k (payload_after eventData data')) st
            | (Threw e, data') \<Rightarrow> (Threw e, [EventCallback key eventData], st)))"

text \<open>\<^verbatim>\<open>_handleDispatch(dispatchName, data)\<close>\<close>

definition handleDispatch :: "json \<Rightarrow> json \<Rightarrow> action" where
  "handleDispatch dispatchName data =
     lift (js_toString dispatchName) (\<lambda>name.
     seq (emit (Log ''log'' (''Dispatch event: '' @ name) (Some 4)))
    (emitEvent dispatchName data (\<lambda>data.
         (if dispatchName = JStr ''READY'' then
            lift (get_prop data ''session_id'') (\<lambda>sid.
            seq (modify (\<lambda>st. st\<lparr>sessionID := sid\<rparr>))
                (lift (get_prop data ''user'') (\<lambda>user.
                 modify (\<lambda>st. st\<lparr>me := user\<rparr>))))
          else if dispatchName = JStr ''GUILD_CREATE'' then
            lift (get_prop data ''id'') (\<lambda>gid.
            lift (js_toString gid) (\<lambda>key.
            modify (\<lambda>st. st\<lparr>guilds := (guilds st)(key \<mapsto> data)\<rparr>)))
          else if dispatchName = JStr ''MESSAGE_CREATE'' then
            lift (get_prop data ''content'') (\<lambda>msg.
            lift (index0 msg) (\<lambda>first st.
              if first = JStr (commandChar st) then
                (case msg of
                   JStr m \<Rightarrow>
                     (let command = substr m 1 (int (length m) - 1);
                          commandWord = toLowerCase (split_space_first command);
                          firstSpace = indexOf_space command;
                          len = int (length command) - firstSpace;
                          restOfCommand = substr command (firstSpace + 1) len
                      in case commandCallbacks st commandWord of
                           None \<Rightarrow> ret st
                         | Some callback \<Rightarrow>
                             seq (emit (Log ''log'' (''Command received: '' @ commandWord) None))
                                 (\<lambda>st. (callback data restOfCommand,
                                        [CommandCallback commandWord data restOfCommand], st)) st)
                 | _ \<Rightarrow> throw TypeError st)
              else ret st))
          else if dispatchName = JStr ''RESUMED'' then
            modify (\<lambda>st. st\<lparr>resuming := False\<rparr>)
          else ret))))"

text \<open>\<^verbatim>\<open>_handleGatewayObject(obj)\<close>\<close>

definition handleGatewayObject :: "json \<Rightarrow> action" where
  "handleGatewayObject obj =
     lift (get_prop obj ''op'') (\<lambda>opv.
     lift (js_toString opv) (\<lambda>key.
       let opName = map_of GatewayOpcodes key;
           logLevel = (if opName = Some ''Heartbeat ACK'' then 6 else 5)
       in seq (emit (Log ''log'' (''Received OP '' @ key @ '': '' @ show_name opName)
                       (Some logLevel)))
              (if opName = Some ''Dispatch'' then
                 lift (get_prop obj ''s'') (\<lambda>s.
                 seq (modify (\<lambda>st. st\<lparr>lastSequenceNum := s\<rparr>))
                     (lift (get_prop obj ''t'') (\<lambda>t.
                      lift (get_prop obj ''d'') (\<lambda>d.
                      handleDispatch t d))))
               else if opName = Some ''Heartbeat'' then heartbeat
               else if opName = Some ''Reconnect'' then reconnect
               else if opName = Some ''Invalid Session'' then
                 (\<lambda>st. case socket st of
                          None \<Rightarrow> ret st
                        | Some k \<Rightarrow> emit (SocketEnd k) st)
               else if opName = Some ''Hello'' then
                 lift (get_prop obj ''d'') (\<lambda>d.
                 lift (get_prop d ''heartbeat_interval'') (\<lambda>interval.
                 handleHello interval))
               else if opName = Some ''Heartbeat ACK'' then
                 modify (\<lambda>st. st\<lparr>heartbeatAcknowledged := True\<rparr>)
               else ret)))"

subsection \<open>The socket's handlers\<close>

text \<open>\<open>try_catch body handler\<close>: \<^verbatim>\<open>try { body } catch { handler }\<close>.\<close>

definition try_catch :: "action \<Rightarrow> action \<Rightarrow> action" where
  "try_catch body handler st =
     (case body st of
        (Done, es, st') \<Rightarrow> (Done, es, st')
      | (Threw e, es, st') \<Rightarrow> (case handler st' of (r, es', st'') \<Rightarrow> (r, es @ es', st'')))"

text \<open>
  The handler of the socket's \<^verbatim>\<open>data\<close> event. \<^verbatim>\<open>JSON.parse\<close> is a parameter: \<open>None\<close>
  is the SyntaxError it throws on a payload that is not JSON.
\<close>

definition on_data :: "(string \<Rightarrow> json option) \<Rightarrow> string \<Rightarrow> action" where
  "on_data JSON_parse data =
     try_catch
       (\<lambda>st. case JSON_parse data of
                None \<Rightarrow> throw SyntaxError st
              | Some obj \<Rightarrow> handleGatewayObject obj st)
       (seq (emit (Log ''log'' ''Couldn't handle a gateway object'' None))
            (emit (Log ''log'' data None)))"

definition on_end :: action where
  "on_end =
     seq (emit (Log ''log'' ''End of socket'' None))
         (\<lambda>st. clearInterval (heartbeatIntervalObj st) st)"

definition on_host_disconnect :: "string \<Rightarrow> action" where
  "on_host_disconnect data = emit (Log ''error'' (''Socket disconnected by host: '' @ data) None)"

text \<open>The rest of \<^verbatim>\<open>_gatewayConnect()\<close>, run when the awaited request has settled.\<close>

definition gatewayConnect_settled :: "js_error + json \<Rightarrow> action" where
  "gatewayConnect_settled response = lift response gatewayConnect_resolved"

subsection \<open>The public methods\<close>

definition onEvent :: "string \<Rightarrow> event_cb \<Rightarrow> action" where
  "onEvent eventName callback =
     (let eName = replaceAll_space_underscore (toUpperCase eventName)
      in modify (\<lambda>st. st\<lparr>dispatchCallbacks := (dispatchCallbacks st)(eName \<mapsto> callback)\<rparr>))"

definition registerCommand :: "string \<Rightarrow> command_cb \<Rightarrow> action" where
  "registerCommand keyWord callback =
     modify (\<lambda>st. st\<lparr>commandCallbacks := (commandCallbacks st)(toLowerCase keyWord \<mapsto> callback)\<rparr>)"

definition statusUpdate :: "json \<Rightarrow> json \<Rightarrow> json \<Rightarrow> json \<Rightarrow> action" where
  "statusUpdate status game since afk =
     sendOpcode 3 (JObj [(''since'', since), (''game'', game), (''status'', status), (''afk'', afk)])"

definition createMessage :: "string \<Rightarrow> json \<Rightarrow> action" where
  "createMessage channelID content =
     emit (ApiRequest ''POST'' (''/channels/'' @ channelID @ ''/messages'')
             (JObj [(''content'', content)]))"

text \<open>
  \<^verbatim>\<open>joinVoiceChannel(channelID, selfMute, selfDeaf)\<close> issues the channel lookup and
  awaits it; the rest runs when the lookup has settled, with the channel object or with
  the error of a rejected request, which the method rethrows to its caller.
\<close>

definition joinVoiceChannel :: "string \<Rightarrow> action" where
  "joinVoiceChannel channelID = emit (ApiRequest ''GET'' (''/channels/'' @ channelID) JUndefined)"

definition joinVoiceChannel_settled :: "string \<Rightarrow> json \<Rightarrow> json \<Rightarrow> js_error + json \<Rightarrow> action" where
  "joinVoiceChannel_settled channelID selfMute selfDeaf response =
     lift response (\<lambda>channelObj.
     lift (get_prop channelObj ''guild_id'') (\<lambda>guildID.
       if truthy channelObj then
         lift (get_prop channelObj ''type'') (\<lambda>ty.
           if ty = JNum 2 then
             lift (get_prop channelObj ''guild_id'') (\<lambda>guild_id.
             sendOpcode 4
               (JObj [(''guild_id'', guild_id),
                      (''channel_id'', JStr channelID),
                      (''self_mute'', selfMute),
                      (''self_deaf'', selfDeaf)]))
           else emit (Log ''warning'' ''joinVoiceChannel called on a non-voice channel'' None))
       else emit (Log ''warning'' ''joinVoiceChannel called with an invalid channel ID'' None)))"

definition leaveVoiceChannel :: "json \<Rightarrow> action" where
  "leaveVoiceChannel guildID =
     sendOpcode 4
       (JObj [(''guild_id'', guildID),
              (''channel_id'', JNull),
              (''self_mute'', JBool False),
              (''self_deaf'', JBool False)])"

text \<open>The constructor: the fields, then \<^verbatim>\<open>this._gatewayConnect()\<close>.\<close>

definition fresh_client :: "json \<Rightarrow> json \<Rightarrow> bool \<Rightarrow> client" where
  "fresh_client tok ints bot_account =
     \<lparr>token = tok,
      intents = ints,
      isBot = bot_account,
      shardCount = JNull,
      socket = None,
      me = JNull,
      heartbeatIntervalObj = None,
      lastSequenceNum = JNull,
      heartbeatAcknowledged = True,
      sessionID = JNull,
      resuming = False,
      dispatchCallbacks = Map.empty,
      commandChar = ''!'',
      commandCallbacks = Map.empty,
      guilds = Map.empty,
      timers = [],
      timer_count = 0,
      socket_count = 0\<rparr>"

definition constructor :: "json \<Rightarrow> json \<Rightarrow> bool \<Rightarrow> outcome \<times> event list \<times> client" where
  "constructor tok ints bot_account = gatewayConnect (fresh_client tok ints bot_account)"

section \<open>The client as a reactive system\<close>

text \<open>
  Everything that makes the client run: an event of the socket, a tick of an armed interval
  timer (which calls \<^verbatim>\<open>_heartbeat()\<close>), the settling of an awaited request, or a call of
  a public method by the application.
\<close>

datatype input =
    SocketData string
  | SocketEnded
  | SocketHostDisconnect string
  | TimerTick nat
  | GatewaySettled "js_error + json"
  | JoinVoiceSettled string json json "js_error + json"
  | CallReconnect
  | CallOnEvent string event_cb
  | CallRegisterCommand string command_cb
  | CallStatusUpdate json json json json
  | CallCreateMessage string json
  | CallJoinVoiceChannel string
  | CallLeaveVoiceChannel json

fun step :: "(string \<Rightarrow> json option) \<Rightarrow> input \<Rightarrow> action" where
  "step JSON_parse (SocketData data) = on_data JSON_parse data"
| "step JSON_parse SocketEnded = on_end"
| "step JSON_parse (SocketHostDisconnect data) = on_host_disconnect data"
| "step JSON_parse (TimerTick h) = (\<lambda>st. if h \<in> set (timers st) then heartbeat st else ret st)"
| "step JSON_parse (GatewaySettled response) = gatewayConnect_settled response"
| "step JSON_parse (JoinVoiceSettled channelID selfMute selfDeaf response) =
     joinVoiceChannel_settled channelID selfMute selfDeaf response"
| "step JSON_parse CallReconnect = reconnect"
| "step JSON_parse (CallOnEvent eventName callback) = onEvent eventName callback"
| "step JSON_parse (CallRegisterCommand keyWord callback) = registerCommand keyWord callback"
| "step JSON_parse (CallStatusUpdate status game since afk) = statusUpdate status game since afk"
| "step JSON_parse (CallCreateMessage channelID content) = createMessage channelID content"
| "step JSON_parse (CallJoinVoiceChannel channelID) = joinVoiceChannel channelID"
| "step JSON_parse (CallLeaveVoiceChannel guildID) = leaveVoiceChannel guildID"

text \<open>
  When an input can occur: a socket event needs a socket that was created, a tick needs
  its timer to be armed, and the endpoint that the REST API returns has a string as its
  \<^verbatim>\<open>url\<close>. \<open>admissible\<close> checks this along a list of inputs.
\<close>

fun enabled :: "input \<Rightarrow> client \<Rightarrow> bool" where
  "enabled (SocketData data) st = (0 < socket_count st)"
| "enabled SocketEnded st = (0 < socket_count st)"
| "enabled (SocketHostDisconnect data) st = (0 < socket_count st)"
| "enabled (TimerTick h) st = (h \<in> set (timers st))"
| "enabled (GatewaySettled (Inr gateway)) st =
     (case get_prop gateway ''url'' of Inr (JStr u) \<Rightarrow> True | _ \<Rightarrow> False)"
| "enabled i st = True"

text \<open>The parts of a result, and the client after a list of inputs (an uncaught error
  ends the handler that threw it, not the client).\<close>

definition outcome_of :: "outcome \<times> event list \<times> client \<Rightarrow> outcome" where
  "outcome_of r = fst r"

definition events_of :: "outcome \<times> event list \<times> client \<Rightarrow> event list" where
  "events_of r = fst (snd r)"

definition state_of :: "outcome \<times> event list \<times> client \<Rightarrow> client" where
  "state_of r = snd (snd r)"

fun run :: "(string \<Rightarrow> json option) \<Rightarrow> input list \<Rightarrow> client \<Rightarrow> client" where
  "run JSON_parse [] st = st"
| "run JSON_parse (i # is) st = run JSON_parse is (state_of (step JSON_parse i st))"

fun admissible :: "(string \<Rightarrow> json option) \<Rightarrow> input list \<Rightarrow> client \<Rightarrow> bool" where
  "admissible JSON_parse [] st = True"
| "admissible JSON_parse (i # is) st =
     (enabled i st \<and> admissible JSON_parse is (state_of (step JSON_parse i st)))"

text \<open>The frames written to the socket among a list of events.\<close>

fun sent :: "event list \<Rightarrow> frame list" where
  "sent [] = []"
| "sent (SocketWrite k f # es) = f # sent es"
| "sent (e # es) = sent es"

section \<open>Notions used by the properties\<close>

text \<open>
  The name the opcode table gives to a parsed frame (\<open>None\<close> when reading or converting
  \<^verbatim>\<open>obj.op\<close> throws, or the table has no such key), and its \<^verbatim>\<open>s\<close> field.
\<close>

definition frame_opName :: "json \<Rightarrow> string option" where
  "frame_opName obj =
     (case get_prop obj ''op'' of
        Inl e \<Rightarrow> None
      | Inr opv \<Rightarrow> (case js_toString opv of Inl e \<Rightarrow> None | Inr key \<Rightarrow> map_of GatewayOpcodes key))"

definition frame_seq :: "json \<Rightarrow> json" where
  "frame_seq obj = (case get_prop obj ''s'' of Inl e \<Rightarrow> JUndefined | Inr s \<Rightarrow> s)"

text \<open>The \<^verbatim>\<open>s\<close> field of the last Dispatch frame among the inputs, or \<open>cur\<close> if there is none.\<close>

fun last_dispatch_seq :: "(string \<Rightarrow> json option) \<Rightarrow> input list \<Rightarrow> json \<Rightarrow> json" where
  "last_dispatch_seq JSON_parse [] cur = cur"
| "last_dispatch_seq JSON_parse (SocketData data # is) cur =
     last_dispatch_seq JSON_parse is
       (case JSON_parse data of
          None \<Rightarrow> cur
        | Some obj \<Rightarrow> if frame_opName obj = Some ''Dispatch'' then frame_seq obj else cur)"
| "last_dispatch_seq JSON_parse (i # is) cur = last_dispatch_seq JSON_parse is cur"

text \<open>
  Sequences of handshake events: a Hello handled by \<^verbatim>\<open>_handleHello\<close>, a call of
  \<^verbatim>\<open>reconnect()\<close>, and the completion of the connection attempt that a reconnect starts.
  \<open>hello_follows_reconnect armed evs\<close> says that in \<open>evs\<close> no Hello is handled while a
  timer armed by an earlier Hello may still run (\<open>armed\<close> is that fact at the start).
\<close>

datatype handshake_input = Hello json | Reconnect | Connected "js_error + json"

fun handshake :: "handshake_input \<Rightarrow> action" where
  "handshake (Hello interval) = handleHello interval"
| "handshake Reconnect = reconnect"
| "handshake (Connected response) = gatewayConnect_settled response"

fun run_handshakes :: "handshake_input list \<Rightarrow> client \<Rightarrow> client" where
  "run_handshakes [] st = st"
| "run_handshakes (e # es) st = run_handshakes es (state_of (handshake e st))"

fun hello_follows_reconnect :: "bool \<Rightarrow> handshake_input list \<Rightarrow> bool" where
  "hello_follows_reconnect armed [] = True"
| "hello_follows_reconnect armed (Hello interval # es) =
     (\<not> armed \<and> hello_follows_reconnect True es)"
| "hello_follows_reconnect armed (Reconnect # es) = hello_follows_reconnect False es"
| "hello_follows_reconnect armed (Connected response # es) = hello_follows_reconnect armed es"

text \<open>
  Invariants that compose the proofs: the fields that only the Dispatch case
  (\<open>lastSequenceNum\<close>) or only a completed connection attempt (the socket) assigns; a
  socket is attached once one was created, and timers are armed only then; at most one
  timer is armed, and its handle is the stored one; every Identify frame among the events
  of a result carries the Identify payload of the client.
\<close>

definition kept :: "client \<Rightarrow> client \<Rightarrow> bool" where
  "kept st st' \<longleftrightarrow>
     lastSequenceNum st' = lastSequenceNum st \<and> socket st' = socket st \<and>
     socket_count st' = socket_count st"

definition connected_inv :: "client \<Rightarrow> bool" where
  "connected_inv st \<longleftrightarrow>
     (socket st = None \<longrightarrow> socket_count st = 0) \<and> (timers st \<noteq> [] \<longrightarrow> 0 < socket_count st)"

definition one_stored_timer :: "client \<Rightarrow> bool" where
  "one_stored_timer st =
     (case timers st of
        [] \<Rightarrow> True
      | [h] \<Rightarrow> heartbeatIntervalObj st = Some h
      | _ \<Rightarrow> False)"

definition identify_ok :: "client \<Rightarrow> outcome \<times> event list \<times> client \<Rightarrow> bool" where
  "identify_ok st r \<longleftrightarrow>
     token (state_of r) = token st \<and> intents (state_of r) = intents st \<and>
     (\<forall>f \<in> set (sent (events_of r)). f_op f = 2 \<longrightarrow> f_d f = identify_payload st)"

text \<open>
  For the callback registered under an event name, if any: whether it returns normally on
  a payload, and the payload as \<^verbatim>\<open>_handleDispatch\<close> reads it after the call.
\<close>

definition event_callback_returns :: "client \<Rightarrow> string \<Rightarrow> json \<Rightarrow> bool" where
  "event_callback_returns st key data =
     (case dispatchCallbacks st key of None \<Rightarrow> True | Some cb \<Rightarrow> fst (cb data) = Done)"

definition payload_read :: "client \<Rightarrow> string \<Rightarrow> json \<Rightarrow> json" where
  "payload_read st key data =
     (case dispatchCallbacks st key of
        None \<Rightarrow> data
      | Some cb \<Rightarrow> payload_after data (snd (cb data)))"

text \<open>The Identify frames among a list of events, the \<^verbatim>\<open>presence\<close> property of a
  frame's payload, and the presence object with an \<^verbatim>\<open>activity\<close> key.\<close>

definition identify_frames :: "event list \<Rightarrow> frame list" where
  "identify_frames es = filter (\<lambda>f. f_op f = 2) (sent es)"

definition frame_presence :: "frame \<Rightarrow> js_error + json" where
  "frame_presence f = get_prop (f_d f) ''presence''"

definition presence_with_activity :: json where
  "presence_with_activity =
     JObj [(''since'', JNull), (''status'', JStr ''online''), (''activity'', JNull),
           (''afk'', JBool False)]"

subsection \<open>Example states and frames\<close>

text \<open>A client constructed for a bot account, once its first connection attempt has
  completed; the same client with a command \<^verbatim>\<open>ping\<close> registered; and the client after
  a Hello and one heartbeat that the server has not acknowledged yet.\<close>

definition gateway_response :: json where
  "gateway_response = JObj [(''url'', JStr ''wss://gateway.example''), (''shards'', JNum 1)]"

definition connected_client :: client where
  "connected_client =
     state_of (gatewayConnect_settled (Inr gateway_response)
       (state_of (constructor (JStr ''secret'') (JNum 513) True)))"

definition ping_callback :: command_cb where
  "ping_callback data rest = Done"

definition ping_client :: client where
  "ping_client = state_of (registerCommand ''ping'' ping_callback connected_client)"

text \<open>A message with empty content, and three event callbacks for MESSAGE_CREATE: one
  that returns, one that throws, one that puts a command into the message.\<close>

definition empty_message :: json where
  "empty_message = JObj [(''content'', JStr [])]"

definition quiet_callback :: event_cb where
  "quiet_callback data = (Done, data)"

definition throwing_callback :: event_cb where
  "throwing_callback data = (Threw (CallbackError ''boom''), data)"

definition rewriting_callback :: event_cb where
  "rewriting_callback data = (Done, JObj [(''content'', JStr ''!ping'')])"

definition listening_client :: client where
  "listening_client = state_of (onEvent ''message create'' quiet_callback ping_client)"

definition throwing_client :: client where
  "throwing_client = state_of (onEvent ''message create'' throwing_callback ping_client)"

definition rewriting_client :: client where
  "rewriting_client = state_of (onEvent ''message create'' rewriting_callback ping_client)"

definition hello_frame :: json where
  "hello_frame = JObj [(''op'', JNum 10), (''d'', JObj [(''heartbeat_interval'', JNum 45000)])]"

definition ping_frame :: json where
  "ping_frame =
     JObj [(''op'', JNum 0), (''t'', JStr ''MESSAGE_CREATE''), (''s'', JNum 7),
           (''d'', JObj [(''content'', JStr ''!ping'')])]"

definition heartbeat_request_frame :: json where
  "heartbeat_request_frame = JObj [(''op'', JNum 1), (''d'', JNull)]"

definition ready_frame :: json where
  "ready_frame =
     JObj [(''op'', JNum 0), (''t'', JStr ''READY''), (''s'', JNum 1),
           (''d'', JObj [(''session_id'', JStr ''abc''), (''user'', JObj [(''id'', JStr ''42'')])])]"

definition awaiting_ack_client :: client where
  "awaiting_ack_client =
     state_of (step (\<lambda>data. None) (TimerTick 0)
       (state_of (handleGatewayObject hello_frame connected_client)))"

text \<open>A client whose session was established (Hello, then READY) and which is
  reconnecting: \<^verbatim>\<open>reconnect()\<close> was called and the new connection attempt has completed.\<close>

definition established_client :: client where
  "established_client =
     state_of (handleGatewayObject ready_frame
       (state_of (handleGatewayObject hello_frame connected_client)))"

definition resuming_client :: client where
  "resuming_client =
     state_of (gatewayConnect_settled (Inr gateway_response)
       (state_of (reconnect established_client)))"

text \<open>A stand-in for \<^verbatim>\<open>JSON.parse\<close> on four payloads: a Dispatch frame, a
  Heartbeat ACK, a Hello, and the text \<^verbatim>\<open>null\<close>; every other payload is rejected.\<close>

definition quoted :: "string \<Rightarrow> string" where
  "quoted s = CHR 0x22 # s @ [CHR 0x22]"

definition dispatch_text :: string where
  "dispatch_text = ''{'' @ quoted ''op'' @ '':0,'' @ quoted ''s'' @ '':7}''"

definition ack_text :: string where
  "ack_text = ''{'' @ quoted ''op'' @ '':11}''"

definition hello_text :: string where
  "hello_text =
     ''{'' @ quoted ''op'' @ '':10,'' @ quoted ''d'' @ '':{'' @ quoted ''heartbeat_interval''
       @ '':45000}}''"

definition example_parse :: "string \<Rightarrow> json option" where
  "example_parse data =
     (if data = dispatch_text then Some (JObj [(''op'', JNum 0), (''s'', JNum 7)])
      else if data = ack_text then Some (JObj [(''op'', JNum 11)])
      else if data = hello_text then Some hello_frame
      else if data = ''null'' then Some JNull
      else None)"

section \<open>Basic facts\<close>

lemma outcome_of_triple [simp]: "outcome_of (r, es, st) = r"
  by (simp add: outcome_of_def)

lemma events_of_triple [simp]: "events_of (r, es, st) = es"
  by (simp add: events_of_def)

lemma state_of_triple [simp]: "state_of (r, es, st) = st"
  by (simp add: state_of_def)

lemma state_of_ret [simp]: "state_of (ret st) = st"
  by (simp add: ret_def)

lemma state_of_emit [simp]: "state_of (emit e st) = st"
  by (simp add: emit_def)

lemma state_of_throw [simp]: "state_of (throw e st) = st"
  by (simp add: throw_def)

lemma state_of_modify [simp]: "state_of (modify f st) = f st"
  by (simp add: modify_def)

lemma outcome_of_ret [simp]: "outcome_of (ret st) = Done"
  by (simp add: ret_def)

lemma outcome_of_emit [simp]: "outcome_of (emit e st) = Done"
  by (simp add: emit_def)

lemma outcome_of_throw [simp]: "outcome_of (throw e st) = Threw e"
  by (simp add: throw_def)

lemma outcome_of_modify [simp]: "outcome_of (modify f st) = Done"
  by (simp add: modify_def)

lemma events_of_ret [simp]: "events_of (ret st) = []"
  by (simp add: ret_def)

lemma events_of_emit [simp]: "events_of (emit e st) = [e]"
  by (simp add: emit_def)

lemma events_of_throw [simp]: "events_of (throw e st) = []"
  by (simp add: throw_def)

lemma events_of_modify [simp]: "events_of (modify f st) = []"
  by (simp add: modify_def)

lemma state_of_seq:
  "state_of (seq f g st) =
     (case outcome_of (f st) of
        Done \<Rightarrow> state_of (g (state_of (f st)))
      | Threw e \<Rightarrow> state_of (f st))"
  by (simp add: seq_def state_of_def outcome_of_def split: prod.splits outcome.splits)

lemma events_of_seq:
  "events_of (seq f g st) =
     (case outcome_of (f st) of
        Done \<Rightarrow> events_of (f st) @ events_of (g (state_of (f st)))
      | Threw e \<Rightarrow> events_of (f st))"
  by (simp add: seq_def state_of_def outcome_of_def events_of_def
      split: prod.splits outcome.splits)

lemma outcome_of_seq:
  "outcome_of (seq f g st) =
     (case outcome_of (f st) of
        Done \<Rightarrow> outcome_of (g (state_of (f st)))
      | Threw e \<Rightarrow> Threw e)"
  by (simp add: seq_def state_of_def outcome_of_def split: prod.splits outcome.splits)

lemma state_of_lift:
  "state_of (lift v k st) = (case v of Inl e \<Rightarrow> st | Inr x \<Rightarrow> state_of (k x st))"
  by (simp add: lift_def split: sum.splits)

lemma events_of_lift:
  "events_of (lift v k st) = (case v of Inl e \<Rightarrow> [] | Inr x \<Rightarrow> events_of (k x st))"
  by (simp add: lift_def split: sum.splits)

lemma outcome_of_lift:
  "outcome_of (lift v k st) = (case v of Inl e \<Rightarrow> Threw e | Inr x \<Rightarrow> outcome_of (k x st))"
  by (simp add: lift_def split: sum.splits)

lemmas proj_simps =
  state_of_seq events_of_seq outcome_of_seq state_of_lift events_of_lift outcome_of_lift

lemma digit_chars:
  "char_of (48::nat) = CHR ''0''" "char_of (49::nat) = CHR ''1''" "char_of (50::nat) = CHR ''2''"
  "char_of (51::nat) = CHR ''3''" "char_of (52::nat) = CHR ''4''" "char_of (53::nat) = CHR ''5''"
  "char_of (54::nat) = CHR ''6''" "char_of (55::nat) = CHR ''7''" "char_of (56::nat) = CHR ''8''"
  "char_of (57::nat) = CHR ''9''"
  by code_simp+

lemma string_of_int_opcodes [simp]:
  "string_of_int 0 = ''0''" "string_of_int 1 = ''1''" "string_of_int 2 = ''2''"
  "string_of_int 3 = ''3''" "string_of_int 4 = ''4''" "string_of_int 5 = ''5''"
  "string_of_int 6 = ''6''" "string_of_int 7 = ''7''" "string_of_int 8 = ''8''"
  "string_of_int 9 = ''9''" "string_of_int 10 = ''10''" "string_of_int 11 = ''11''"
  "string_of_int 45000 = ''45000''"
  by (simp_all add: string_of_int_def string_of_nat.simps digit_chars)

lemma sendOpcode_connected:
  "socket st = Some k \<Longrightarrow>
   sendOpcode opc d st =
     (Done,
      [Log ''log''
         (''Sending OP '' @ string_of_int opc @ '': ''
            @ show_name (map_of GatewayOpcodes (string_of_int opc)))
         (Some (if map_of GatewayOpcodes (string_of_int opc) = Some ''Heartbeat'' then 6 else 5)),
       SocketWrite k \<lparr>f_op = opc, f_d = d, f_s = JNull, f_t = JNull\<rparr>],
      st)"
  by (simp add: sendOpcode_def seq_def emit_def Let_def)

lemma sendOpcode_unconnected:
  "socket st = None \<Longrightarrow>
   sendOpcode opc d st =
     (Threw TypeError,
      [Log ''log''
         (''Sending OP '' @ string_of_int opc @ '': ''
            @ show_name (map_of GatewayOpcodes (string_of_int opc)))
         (Some (if map_of GatewayOpcodes (string_of_int opc) = Some ''Heartbeat'' then 6 else 5))],
      st)"
  by (simp add: sendOpcode_def seq_def emit_def throw_def Let_def)

lemma connected_client_eq:
  "connected_client =
     (fresh_client (JStr ''secret'') (JNum 513) True)
       \<lparr>shardCount := JNum 1, socket := Some 0, socket_count := 1\<rparr>"
  by (simp add: connected_client_def gateway_response_def constructor_def gatewayConnect_def
      gatewayConnect_settled_def gatewayConnect_resolved_def fresh_client_def
      seq_def emit_def lift_def modify_def ret_def)

lemma sent_append: "sent (es @ es') = sent es @ sent es'"
  by (induction es rule: sent.induct) simp_all

lemma sent_reconnect: "sent (events_of (reconnect st)) = []"
  by (simp add: reconnect_def seq_def modify_def clearInterval_def gatewayConnect_def emit_def)

lemma awaiting_ack_client_eq:
  "awaiting_ack_client =
     (fresh_client (JStr ''secret'') (JNum 513) True)
       \<lparr>shardCount := JNum 1, socket := Some 0, heartbeatIntervalObj := Some 0,
        heartbeatAcknowledged := False, timers := [0], timer_count := 1, socket_count := 1\<rparr>"
  by (simp add: awaiting_ack_client_def connected_client_eq hello_frame_def
      handleGatewayObject_def handleHello_def setInterval_def heartbeat_def
      sendOpcode_def identify_payload_def GatewayOpcodes_def show_name_def
      fresh_client_def Let_def seq_def emit_def lift_def modify_def ret_def)

lemma ping_strings:
  "substr ''!ping'' 1 4 = ''ping''"
  "toLowerCase (split_space_first ''ping'') = ''ping''"
  "indexOf_space ''ping'' = - 1"
  "substr ''ping'' 0 5 = ''ping''"
  by code_simp+

lemma ping_client_eq:
  "ping_client = connected_client\<lparr>commandCallbacks := [''ping'' \<mapsto> ping_callback]\<rparr>"
proof -
  have "toLowerCase ''ping'' = ''ping''" by code_simp
  then show ?thesis
    by (simp add: ping_client_def registerCommand_def connected_client_eq fresh_client_def)
qed

lemma established_client_eq:
  "established_client =
     connected_client\<lparr>me := JObj [(''id'', JStr ''42'')], heartbeatIntervalObj := Some 0,
       lastSequenceNum := JNum 1, sessionID := JStr ''abc'', timers := [0], timer_count := 1\<rparr>"
  by (simp add: established_client_def connected_client_eq fresh_client_def hello_frame_def
      ready_frame_def handleGatewayObject_def handleHello_def setInterval_def handleDispatch_def
      emitEvent_def sendOpcode_connected identify_payload_def GatewayOpcodes_def show_name_def
      Let_def lift_def seq_def emit_def modify_def ret_def)

lemma resuming_client_eq:
  "resuming_client =
     established_client\<lparr>socket := Some 1, resuming := True, timers := [], socket_count := 2\<rparr>"
  by (simp add: resuming_client_def established_client_eq connected_client_eq fresh_client_def
      reconnect_def clearInterval_def gatewayConnect_def gatewayConnect_settled_def
      gatewayConnect_resolved_def gateway_response_def
      Let_def lift_def seq_def emit_def modify_def ret_def)

lemma state_of_try_catch:
  "state_of (try_catch body handler st) =
     (case outcome_of (body st) of
        Done \<Rightarrow> state_of (body st)
      | Threw e \<Rightarrow> state_of (handler (state_of (body st))))"
  by (simp add: try_catch_def state_of_def outcome_of_def split: prod.splits outcome.splits)

lemma get_prop_twice:
  "get_prop obj k = Inr v \<Longrightarrow> \<exists>w. get_prop obj k' = Inr w"
  by (cases obj) auto

subsection \<open>Fields the handlers leave alone\<close>

lemma kept_refl [simp]: "kept st st"
  by (simp add: kept_def)

lemma kept_trans: "kept a b \<Longrightarrow> kept b c \<Longrightarrow> kept a c"
  by (simp add: kept_def)

lemma kept_seq:
  assumes "\<And>s. kept s (state_of (f s))" and "\<And>s. kept s (state_of (g s))"
  shows "kept st (state_of (seq f g st))"
proof (cases "outcome_of (f st)")
  case Done
  have "kept st (state_of (f st))" and "kept (state_of (f st)) (state_of (g (state_of (f st))))"
    using assms by blast+
  then show ?thesis using Done by (simp add: state_of_seq kept_def)
next
  case (Threw e)
  then show ?thesis using assms(1) by (simp add: state_of_seq)
qed

lemma kept_lift:
  assumes "\<And>x s. kept s (state_of (k x s))"
  shows "kept st (state_of (lift v k st))"
  using assms by (auto simp: state_of_lift split: sum.splits)

lemma kept_sendOpcode: "kept st (state_of (sendOpcode opc d st))"
  by (simp add: sendOpcode_def Let_def proj_simps split: outcome.splits option.splits)

lemma kept_emitEvent:
  assumes "\<And>d s. kept s (state_of (k d s))"
  shows "kept st (state_of (emitEvent n d k st))"
  using assms
  by (auto simp: emitEvent_def proj_simps
      split: outcome.splits option.splits sum.splits prod.splits)

lemma kept_handleDispatch: "kept st (state_of (handleDispatch n d st))"
  unfolding handleDispatch_def
  apply (intro kept_lift kept_seq kept_emitEvent)
   apply simp
  apply (auto simp: kept_def Let_def proj_simps split: outcome.splits option.splits sum.splits json.splits)
  done

lemma kept_clearInterval: "kept st (state_of (clearInterval h st))"
  by (simp add: clearInterval_def kept_def)

lemma kept_gatewayConnect: "kept st (state_of (gatewayConnect st))"
  by (simp add: gatewayConnect_def proj_simps)

lemma kept_reconnect: "kept st (state_of (reconnect st))"
  by (simp add: reconnect_def proj_simps clearInterval_def kept_def gatewayConnect_def)

lemma kept_heartbeat: "kept st (state_of (heartbeat st))"
proof (cases "heartbeatAcknowledged st")
  case True
  have "kept (st\<lparr>heartbeatAcknowledged := False\<rparr>)
          (state_of (sendOpcode 1 (lastSequenceNum (st\<lparr>heartbeatAcknowledged := False\<rparr>))
             (st\<lparr>heartbeatAcknowledged := False\<rparr>)))"
    by (rule kept_sendOpcode)
  then show ?thesis using True by (simp add: heartbeat_def proj_simps kept_def)
next
  case False
  then show ?thesis using kept_reconnect [of st] by (simp add: heartbeat_def proj_simps)
qed

lemma kept_handleHello: "kept st (state_of (handleHello i st))"
  by (simp add: handleHello_def setInterval_def Let_def proj_simps kept_def sendOpcode_def
      split: sum.splits outcome.splits option.splits)

lemma kept_on_end: "kept st (state_of (on_end st))"
  by (simp add: on_end_def proj_simps clearInterval_def kept_def)

lemma kept_joinVoiceChannel_settled:
  "kept st (state_of (joinVoiceChannel_settled c m d r st))"
  unfolding joinVoiceChannel_settled_def
  by (intro kept_lift) (simp add: kept_sendOpcode kept_lift)

lemma gatewayConnect_settled_seq:
  "lastSequenceNum (state_of (gatewayConnect_settled r st)) = lastSequenceNum st"
  by (simp add: gatewayConnect_settled_def gatewayConnect_resolved_def Let_def proj_simps
      split: sum.splits outcome.splits option.splits)

subsection \<open>The armed timers\<close>

lemma handleHello_timers:
  "(timers (state_of (handleHello interval st)) = timers st
      \<and> heartbeatIntervalObj (state_of (handleHello interval st)) = heartbeatIntervalObj st)
   \<or> (timers (state_of (handleHello interval st)) = timers st @ [timer_count st]
      \<and> heartbeatIntervalObj (state_of (handleHello interval st)) = Some (timer_count st))"
  by (simp add: handleHello_def setInterval_def Let_def proj_simps sendOpcode_def
      split: sum.splits outcome.splits option.splits)

lemma reconnect_timers:
  "timers (state_of (reconnect st)) =
     (case heartbeatIntervalObj st of None \<Rightarrow> timers st | Some h \<Rightarrow> removeAll h (timers st))
   \<and> heartbeatIntervalObj (state_of (reconnect st)) = heartbeatIntervalObj st"
  by (simp add: reconnect_def clearInterval_def gatewayConnect_def proj_simps
      split: option.splits)

lemma gatewayConnect_settled_timers:
  "timers (state_of (gatewayConnect_settled r st)) = timers st
   \<and> heartbeatIntervalObj (state_of (gatewayConnect_settled r st)) = heartbeatIntervalObj st"
  by (simp add: gatewayConnect_settled_def gatewayConnect_resolved_def Let_def proj_simps
      split: sum.splits outcome.splits option.splits)

lemma heartbeat_timers: "set (timers (state_of (heartbeat st))) \<subseteq> set (timers st)"
  using reconnect_timers [of st]
  by (auto simp: heartbeat_def proj_simps sendOpcode_def Let_def
      split: option.splits outcome.splits)

lemma joinVoiceChannel_settled_timers:
  "timers (state_of (joinVoiceChannel_settled c m d r st)) = timers st"
  by (simp add: joinVoiceChannel_settled_def proj_simps sendOpcode_def Let_def
      split: sum.splits option.splits outcome.splits)

lemma step_timers:
  assumes "\<And>data. i \<noteq> SocketData data"
  shows "set (timers (state_of (step JSON_parse i st))) \<subseteq> set (timers st)"
proof (cases i)
  case (SocketData data)
  then show ?thesis using assms by simp
next
  case SocketEnded
  then show ?thesis
    by (auto simp: on_end_def clearInterval_def proj_simps split: option.splits)
next
  case (SocketHostDisconnect data)
  then show ?thesis by (simp add: on_host_disconnect_def)
next
  case (TimerTick h)
  then show ?thesis using heartbeat_timers [of st] by simp
next
  case (GatewaySettled r)
  then show ?thesis using gatewayConnect_settled_timers [of r st] by simp
next
  case (JoinVoiceSettled c m d r)
  then show ?thesis by (simp add: joinVoiceChannel_settled_timers)
next
  case CallReconnect
  then show ?thesis using reconnect_timers [of st] by (auto split: option.splits)
next
  case (CallOnEvent n cb)
  then show ?thesis by (simp add: onEvent_def Let_def)
next
  case (CallRegisterCommand k cb)
  then show ?thesis by (simp add: registerCommand_def)
next
  case (CallStatusUpdate a b c d)
  then show ?thesis
    by (simp add: statusUpdate_def sendOpcode_def Let_def proj_simps split: option.splits)
next
  case (CallCreateMessage c m)
  then show ?thesis by (simp add: createMessage_def)
next
  case (CallJoinVoiceChannel c)
  then show ?thesis by (simp add: joinVoiceChannel_def)
next
  case (CallLeaveVoiceChannel g)
  then show ?thesis
    by (simp add: leaveVoiceChannel_def sendOpcode_def Let_def proj_simps split: option.splits)
qed

subsection \<open>A handler runs with a socket attached\<close>

text \<open>
  \<^verbatim>\<open>_sendOpcode\<close> writes to \<^verbatim>\<open>this.socket\<close> and throws a TypeError while that is
  \<^verbatim>\<open>null\<close>. The handlers of a socket are attached, and the heartbeat timer armed, only
  after \<^verbatim>\<open>_gatewayConnect\<close> has assigned \<^verbatim>\<open>this.socket\<close>: along every admissible list of
  inputs fed to a newly constructed client, a tick or a \<^verbatim>\<open>data\<close> event finds a socket.
\<close>

lemma handleGatewayObject_socket:
  "socket (state_of (handleGatewayObject obj st)) = socket st
   \<and> socket_count (state_of (handleGatewayObject obj st)) = socket_count st"
proof (cases "get_prop obj ''op''")
  case (Inl e)
  then show ?thesis by (simp add: handleGatewayObject_def proj_simps)
next
  case (Inr opv)
  note opv = this
  show ?thesis
  proof (cases "js_toString opv")
    case (Inl e)
    then show ?thesis using opv by (simp add: handleGatewayObject_def proj_simps)
  next
    case (Inr key)
    obtain s t d where s: "get_prop obj ''s'' = Inr s" and t: "get_prop obj ''t'' = Inr t"
      and d: "get_prop obj ''d'' = Inr d"
      using get_prop_twice [OF opv] by blast
    have disp: "kept (st\<lparr>lastSequenceNum := s\<rparr>)
                  (state_of (handleDispatch t d (st\<lparr>lastSequenceNum := s\<rparr>)))"
      by (rule kept_handleDispatch)
    have hello: "\<And>i. kept st (state_of (handleHello i st))"
      by (rule kept_handleHello)
    show ?thesis
      using opv Inr s t d disp hello kept_heartbeat [of st] kept_reconnect [of st]
      by (simp add: handleGatewayObject_def Let_def proj_simps kept_def
          split: sum.splits option.splits)
  qed
qed

lemma on_data_socket:
  "socket (state_of (on_data JSON_parse data st)) = socket st
   \<and> socket_count (state_of (on_data JSON_parse data st)) = socket_count st"
  using handleGatewayObject_socket
  by (simp add: on_data_def state_of_try_catch proj_simps split: option.splits outcome.splits)

lemma gatewayConnect_settled_socket:
  assumes "enabled (GatewaySettled r) st"
  shows "(socket (state_of (gatewayConnect_settled r st)) = socket st
          \<and> socket_count (state_of (gatewayConnect_settled r st)) = socket_count st)
       \<or> (socket (state_of (gatewayConnect_settled r st)) = Some (socket_count st)
          \<and> socket_count (state_of (gatewayConnect_settled r st)) = Suc (socket_count st))"
proof (cases r)
  case (Inl e)
  then show ?thesis by (simp add: gatewayConnect_settled_def lift_def)
next
  case (Inr gateway)
  then obtain u where "get_prop gateway ''url'' = Inr (JStr u)"
    using assms by (auto split: sum.splits json.splits)
  then show ?thesis
    using Inr
    by (simp add: gatewayConnect_settled_def gatewayConnect_resolved_def Let_def proj_simps
        split: sum.splits outcome.splits option.splits)
qed

lemma step_socket:
  assumes "\<And>r. i \<noteq> GatewaySettled r"
  shows "socket (state_of (step JSON_parse i st)) = socket st
       \<and> socket_count (state_of (step JSON_parse i st)) = socket_count st"
proof (cases i)
  case (SocketData data)
  then show ?thesis by (simp add: on_data_socket)
next
  case SocketEnded
  then show ?thesis using kept_on_end [of st] by (simp add: kept_def)
next
  case (SocketHostDisconnect data)
  then show ?thesis by (simp add: on_host_disconnect_def)
next
  case (TimerTick h)
  then show ?thesis using kept_heartbeat [of st] by (simp add: kept_def)
next
  case (GatewaySettled r)
  then show ?thesis using assms by simp
next
  case (JoinVoiceSettled c m d r)
  then show ?thesis using kept_joinVoiceChannel_settled [of st c m d r] by (simp add: kept_def)
next
  case CallReconnect
  then show ?thesis using kept_reconnect [of st] by (simp add: kept_def)
next
  case (CallOnEvent n cb)
  then show ?thesis by (simp add: onEvent_def Let_def)
next
  case (CallRegisterCommand k cb)
  then show ?thesis by (simp add: registerCommand_def)
next
  case (CallStatusUpdate a b c d)
  then show ?thesis using kept_sendOpcode by (simp add: statusUpdate_def kept_def)
next
  case (CallCreateMessage c m)
  then show ?thesis by (simp add: createMessage_def)
next
  case (CallJoinVoiceChannel c)
  then show ?thesis by (simp add: joinVoiceChannel_def)
next
  case (CallLeaveVoiceChannel g)
  then show ?thesis using kept_sendOpcode by (simp add: leaveVoiceChannel_def kept_def)
qed

lemma connected_inv_step:
  assumes inv: "connected_inv st" and en: "enabled i st"
  shows "connected_inv (state_of (step JSON_parse i st))"
proof (cases "\<exists>r. i = GatewaySettled r")
  case True
  then obtain r where r: "i = GatewaySettled r" by blast
  show ?thesis
    using inv gatewayConnect_settled_socket [of r st] gatewayConnect_settled_timers [of r st] en r
    by (auto simp: connected_inv_def)
next
  case False
  then have sock: "socket (state_of (step JSON_parse i st)) = socket st"
    and cnt: "socket_count (state_of (step JSON_parse i st)) = socket_count st"
    using step_socket [of i JSON_parse st] by simp_all
  show ?thesis
  proof (cases "\<exists>data. i = SocketData data")
    case True
    then have "0 < socket_count st" using en by auto
    then show ?thesis using inv sock cnt by (simp add: connected_inv_def)
  next
    case False
    then have "set (timers (state_of (step JSON_parse i st))) \<subseteq> set (timers st)"
      using step_timers [of i JSON_parse st] by simp
    then have "timers (state_of (step JSON_parse i st)) \<noteq> [] \<longrightarrow> timers st \<noteq> []"
      by auto
    then show ?thesis using inv sock cnt by (simp add: connected_inv_def)
  qed
qed

lemma connected_inv_constructor: "connected_inv (state_of (constructor tok ints b))"
  by (simp add: constructor_def gatewayConnect_def fresh_client_def proj_simps connected_inv_def)

lemma connected_inv_run:
  "connected_inv st \<Longrightarrow> admissible JSON_parse is st \<Longrightarrow> connected_inv (run JSON_parse is st)"
  by (induction "is" arbitrary: st) (simp_all add: connected_inv_step)

lemma handler_has_socket:
  assumes "admissible JSON_parse is (state_of (constructor tok ints b))"
    and "enabled i (run JSON_parse is (state_of (constructor tok ints b)))"
    and "i = TimerTick h \<or> i = SocketData data"
  shows "\<exists>k. socket (run JSON_parse is (state_of (constructor tok ints b))) = Some k"
proof -
  have "connected_inv (run JSON_parse is (state_of (constructor tok ints b)))"
    using assms(1) connected_inv_constructor connected_inv_run by blast
  then show ?thesis
    using assms(2,3) by (cases "timers (run JSON_parse is (state_of (constructor tok ints b)))")
      (auto simp: connected_inv_def)
qed

section \<open>Malformed payloads\<close>

text \<open>
  Claim C7. When \<^verbatim>\<open>JSON.parse\<close> rejects the payload of a \<^verbatim>\<open>data\<close> event, the handler
  returns normally, its only effects are the two log calls of the \<^verbatim>\<open>catch\<close> block (no
  write to and no end of the socket), and the client is exactly as it was.
\<close>

theorem malformed_payload_dropped:
  assumes "JSON_parse data = None"
  shows "on_data JSON_parse data st =
           (Done,
            [Log ''log'' ''Couldn't handle a gateway object'' None, Log ''log'' data None],
            st)"
  using assms by (simp add: on_data_def try_catch_def throw_def seq_def emit_def)

theorem malformed_payload_dropped_witness:
  "example_parse ''not json'' = None \<and>
   on_data example_parse ''not json'' connected_client =
     (Done,
      [Log ''log'' ''Couldn't handle a gateway object'' None, Log ''log'' ''not json'' None],
      connected_client)"
proof -
  have h: "example_parse ''not json'' = None"
    by (simp add: example_parse_def dispatch_text_def ack_text_def hello_text_def quoted_def)
  show ?thesis
    using h malformed_payload_dropped [of example_parse "''not json''" connected_client] by simp
qed

section \<open>The sequence number\<close>

lemma handleGatewayObject_seq:
  "lastSequenceNum (state_of (handleGatewayObject obj st)) =
     (if frame_opName obj = Some ''Dispatch'' then frame_seq obj else lastSequenceNum st)"
proof (cases "get_prop obj ''op''")
  case (Inl e)
  then show ?thesis by (simp add: handleGatewayObject_def frame_opName_def proj_simps)
next
  case (Inr opv)
  note opv = this
  show ?thesis
  proof (cases "js_toString opv")
    case (Inl e)
    then show ?thesis using opv by (simp add: handleGatewayObject_def frame_opName_def proj_simps)
  next
    case (Inr key)
    obtain s t d where s: "get_prop obj ''s'' = Inr s" and t: "get_prop obj ''t'' = Inr t"
      and d: "get_prop obj ''d'' = Inr d"
      using get_prop_twice [OF opv] by blast
    have n: "frame_opName obj = map_of GatewayOpcodes key"
      using opv Inr by (simp add: frame_opName_def)
    have disp: "lastSequenceNum (state_of (handleDispatch t d (st\<lparr>lastSequenceNum := s\<rparr>))) = s"
      using kept_handleDispatch [of "st\<lparr>lastSequenceNum := s\<rparr>" t d] by (simp add: kept_def)
    have hello: "\<And>i. lastSequenceNum (state_of (handleHello i st)) = lastSequenceNum st"
      using kept_handleHello by (simp add: kept_def)
    have hb: "lastSequenceNum (state_of (heartbeat st)) = lastSequenceNum st"
      using kept_heartbeat by (simp add: kept_def)
    have rc: "lastSequenceNum (state_of (reconnect st)) = lastSequenceNum st"
      using kept_reconnect by (simp add: kept_def)
    show ?thesis
      using opv Inr s t d disp hello hb rc
      by (simp add: handleGatewayObject_def n frame_seq_def Let_def proj_simps
          split: sum.splits option.splits)
  qed
qed

lemma on_data_seq:
  "lastSequenceNum (state_of (on_data JSON_parse data st)) =
     (case JSON_parse data of
        None \<Rightarrow> lastSequenceNum st
      | Some obj \<Rightarrow>
          if frame_opName obj = Some ''Dispatch'' then frame_seq obj else lastSequenceNum st)"
  using handleGatewayObject_seq
  by (simp add: on_data_def state_of_try_catch proj_simps split: option.splits outcome.splits)

lemma step_seq:
  "lastSequenceNum (state_of (step JSON_parse i st)) =
     last_dispatch_seq JSON_parse [i] (lastSequenceNum st)"
proof (cases i)
  case (SocketData data)
  then show ?thesis by (simp add: on_data_seq)
next
  case SocketEnded
  then show ?thesis using kept_on_end [of st] by (simp add: kept_def)
next
  case (SocketHostDisconnect data)
  then show ?thesis by (simp add: on_host_disconnect_def)
next
  case (TimerTick h)
  then show ?thesis using kept_heartbeat [of st] by (simp add: kept_def)
next
  case (GatewaySettled r)
  then show ?thesis by (simp add: gatewayConnect_settled_seq)
next
  case (JoinVoiceSettled c m d r)
  then show ?thesis using kept_joinVoiceChannel_settled [of st c m d r] by (simp add: kept_def)
next
  case CallReconnect
  then show ?thesis using kept_reconnect [of st] by (simp add: kept_def)
next
  case (CallOnEvent n cb)
  then show ?thesis by (simp add: onEvent_def Let_def)
next
  case (CallRegisterCommand k cb)
  then show ?thesis by (simp add: registerCommand_def)
next
  case (CallStatusUpdate a b c d)
  then show ?thesis using kept_sendOpcode by (simp add: statusUpdate_def kept_def)
next
  case (CallCreateMessage c m)
  then show ?thesis by (simp add: createMessage_def)
next
  case (CallJoinVoiceChannel c)
  then show ?thesis by (simp add: joinVoiceChannel_def)
next
  case (CallLeaveVoiceChannel g)
  then show ?thesis using kept_sendOpcode by (simp add: leaveVoiceChannel_def kept_def)
qed

lemma last_dispatch_seq_Cons:
  "last_dispatch_seq P (i # is) cur = last_dispatch_seq P is (last_dispatch_seq P [i] cur)"
  by (cases i) simp_all

lemma run_seq:
  "lastSequenceNum (run JSON_parse is st) = last_dispatch_seq JSON_parse is (lastSequenceNum st)"
proof (induction "is" arbitrary: st)
  case Nil
  show ?case by simp
next
  case (Cons i "is")
  have "lastSequenceNum (run JSON_parse (i # is) st) =
          last_dispatch_seq JSON_parse is (lastSequenceNum (state_of (step JSON_parse i st)))"
    using Cons.IH by simp
  also have "\<dots> = last_dispatch_seq JSON_parse is
                     (last_dispatch_seq JSON_parse [i] (lastSequenceNum st))"
    by (simp only: step_seq)
  also have "\<dots> = last_dispatch_seq JSON_parse (i # is) (lastSequenceNum st)"
    by (rule last_dispatch_seq_Cons [symmetric])
  finally show ?case .
qed

text \<open>
  The opcode of a frame is looked up in the table the way the handler does it,
  \<^verbatim>\<open>this.GatewayOpcodes[obj.op]\<close>; for an integer \<^verbatim>\<open>op\<close> the name is \<^verbatim>\<open>Dispatch\<close> exactly
  when the integer is 0.
\<close>

lemma string_of_nat_nonempty: "string_of_nat n \<noteq> []"
  by (subst string_of_nat.simps) simp

lemma string_of_nat_zero: "string_of_nat n = ''0'' \<longleftrightarrow> n = 0"
proof (cases "n < 10")
  case True
  have "take_bit 8 (48 + n) = 48 + n"
    using True by (simp add: take_bit_nat_eq_self)
  then have "char_of (48 + n) = (char_of (48::nat) :: char) \<longleftrightarrow> n = 0"
    by (simp add: char_of_eq_iff)
  then show ?thesis
    using True by (subst string_of_nat.simps) (simp add: digit_chars)
next
  case False
  then have "length (string_of_nat n) \<ge> 2"
    using string_of_nat_nonempty [of "n div 10"]
    by (subst string_of_nat.simps) (simp add: Suc_le_eq)
  then show ?thesis using False by auto
qed

lemma dispatch_key: "map_of GatewayOpcodes key = Some ''Dispatch'' \<longleftrightarrow> key = ''0''"
  by (simp add: GatewayOpcodes_def)

lemma integer_opcode_dispatch:
  "get_prop obj ''op'' = Inr (JNum n) \<Longrightarrow> frame_opName obj = Some ''Dispatch'' \<longleftrightarrow> n = 0"
  by (auto simp: frame_opName_def dispatch_key string_of_int_def string_of_nat_zero)

lemma example_inputs_seq:
  "last_dispatch_seq example_parse
     [SocketData dispatch_text, SocketData ack_text, SocketData ''not json''] JNull = JNum 7"
  by (simp add: example_parse_def dispatch_text_def ack_text_def hello_text_def quoted_def
      frame_opName_def frame_seq_def GatewayOpcodes_def)

text \<open>
  Claim C1. After any list of inputs (payloads received on the socket, in any
  interleaving with ticks, socket events, settled requests and calls of the public methods),
  \<^verbatim>\<open>lastSequenceNum\<close> is the \<^verbatim>\<open>s\<close> field of the last payload that parsed to a Dispatch
  frame, or its initial value if there was none. For a single frame handled by
  \<^verbatim>\<open>_handleGatewayObject\<close>: a Dispatch frame sets \<^verbatim>\<open>lastSequenceNum\<close> to its \<^verbatim>\<open>s\<close> field
  (also when the dispatch handler or a callback throws afterwards), every other frame
  leaves it unchanged.
\<close>

theorem lastSequenceNum_is_last_dispatch:
  "lastSequenceNum (run JSON_parse inputs st) =
     last_dispatch_seq JSON_parse inputs (lastSequenceNum st)
   \<and> lastSequenceNum (state_of (handleGatewayObject obj st)) =
       (if frame_opName obj = Some ''Dispatch'' then frame_seq obj else lastSequenceNum st)"
  by (simp only: run_seq handleGatewayObject_seq simp_thms if_True if_False)

theorem lastSequenceNum_is_last_dispatch_witness:
  "lastSequenceNum
     (run example_parse [SocketData dispatch_text, SocketData ack_text, SocketData ''not json'']
        connected_client) = JNum 7"
proof -
  have "lastSequenceNum connected_client = JNull"
    by (simp add: connected_client_eq fresh_client_def)
  then show ?thesis
    using lastSequenceNum_is_last_dispatch [of example_parse
        "[SocketData dispatch_text, SocketData ack_text, SocketData ''not json'']"
        connected_client JNull]
    by (simp only: example_inputs_seq)
qed

section \<open>Heartbeats\<close>

text \<open>
  Claim C2. A call of \<^verbatim>\<open>_heartbeat()\<close>, as the interval timer makes it: if
  \<^verbatim>\<open>heartbeatAcknowledged\<close> is false, it logs a warning and does what \<^verbatim>\<open>reconnect()\<close>
  does, and writes no frame; otherwise, with a socket attached, it sets
  \<^verbatim>\<open>heartbeatAcknowledged\<close> to false and writes exactly one frame, with opcode 1 and
  \<^verbatim>\<open>lastSequenceNum\<close> as its payload.
\<close>

theorem heartbeat_tick:
  "(heartbeatAcknowledged st = False \<longrightarrow>
      heartbeat st =
        (outcome_of (reconnect st),
         Log ''warn'' ''No heartbeat ACK. Reconnecting'' None # events_of (reconnect st),
         state_of (reconnect st))
      \<and> sent (events_of (heartbeat st)) = [])
   \<and> (heartbeatAcknowledged st = True \<and> socket st = Some k \<longrightarrow>
      heartbeat st =
        (Done,
         [Log ''log'' ''Sending OP 1: Heartbeat'' (Some 6),
          SocketWrite k \<lparr>f_op = 1, f_d = lastSequenceNum st, f_s = JNull, f_t = JNull\<rparr>],
         st\<lparr>heartbeatAcknowledged := False\<rparr>))"
proof (intro conjI impI)
  assume a: "heartbeatAcknowledged st = False"
  then show "heartbeat st =
        (outcome_of (reconnect st),
         Log ''warn'' ''No heartbeat ACK. Reconnecting'' None # events_of (reconnect st),
         state_of (reconnect st))"
    by (simp add: heartbeat_def seq_def emit_def outcome_of_def events_of_def state_of_def
        split: prod.splits outcome.splits)
  then show "sent (events_of (heartbeat st)) = []"
    by (simp add: sent_reconnect)
next
  assume a: "heartbeatAcknowledged st = True \<and> socket st = Some k"
  then show "heartbeat st =
        (Done,
         [Log ''log'' ''Sending OP 1: Heartbeat'' (Some 6),
          SocketWrite k \<lparr>f_op = 1, f_d = lastSequenceNum st, f_s = JNull, f_t = JNull\<rparr>],
         st\<lparr>heartbeatAcknowledged := False\<rparr>)"
    by (simp add: heartbeat_def seq_def modify_def sendOpcode_connected GatewayOpcodes_def
        show_name_def)
qed

theorem heartbeat_tick_witness:
  "heartbeatAcknowledged awaiting_ack_client = False
   \<and> sent (events_of (heartbeat awaiting_ack_client)) = []
   \<and> state_of (heartbeat awaiting_ack_client) = state_of (reconnect awaiting_ack_client)
   \<and> heartbeatAcknowledged connected_client = True
   \<and> socket connected_client = Some 0
   \<and> heartbeat connected_client =
        (Done,
         [Log ''log'' ''Sending OP 1: Heartbeat'' (Some 6),
          SocketWrite 0 \<lparr>f_op = 1, f_d = JNull, f_s = JNull, f_t = JNull\<rparr>],
         connected_client\<lparr>heartbeatAcknowledged := False\<rparr>)"
proof -
  have a: "heartbeatAcknowledged awaiting_ack_client = False"
    by (simp add: awaiting_ack_client_eq)
  have b1: "heartbeatAcknowledged connected_client = True"
    and b2: "socket connected_client = Some 0"
    and c: "lastSequenceNum connected_client = JNull"
    by (simp_all add: connected_client_eq fresh_client_def)
  have 1: "sent (events_of (heartbeat awaiting_ack_client)) = []"
    using heartbeat_tick [of awaiting_ack_client 0] a by blast
  have 2: "state_of (heartbeat awaiting_ack_client) = state_of (reconnect awaiting_ack_client)"
    using heartbeat_tick [of awaiting_ack_client 0] a by simp
  have 3: "heartbeat connected_client =
        (Done,
         [Log ''log'' ''Sending OP 1: Heartbeat'' (Some 6),
          SocketWrite 0 \<lparr>f_op = 1, f_d = JNull, f_s = JNull, f_t = JNull\<rparr>],
         connected_client\<lparr>heartbeatAcknowledged := False\<rparr>)"
    using heartbeat_tick [of connected_client 0] b1 b2 c by simp
  show ?thesis
    by (intro conjI) (rule a 1 2 b1 b2 3)+
qed

text \<open>
  Claim C6. A Heartbeat frame (opcode 1) from the server is answered through the same
  \<^verbatim>\<open>_heartbeat()\<close>, whose argument is ignored. When the client's own previous heartbeat has
  not been acknowledged yet, the request is therefore not answered: the client reconnects
  and writes no frame.
\<close>

theorem heartbeat_request_reconnects:
  "handleGatewayObject heartbeat_request_frame awaiting_ack_client =
     (Done,
      [Log ''log'' ''Received OP 1: Heartbeat'' (Some 5),
       Log ''warn'' ''No heartbeat ACK. Reconnecting'' None,
       ClearInterval (Some 0),
       Log ''log'' ''Requesting endpoint'' None,
       ApiRequest ''GET'' ''/gateway/bot'' JUndefined],
      awaiting_ack_client\<lparr>resuming := True, heartbeatAcknowledged := True, timers := []\<rparr>)"
  by (simp add: heartbeat_request_frame_def awaiting_ack_client_eq fresh_client_def
      handleGatewayObject_def heartbeat_def reconnect_def clearInterval_def gatewayConnect_def
      GatewayOpcodes_def show_name_def
      Let_def lift_def seq_def emit_def modify_def ret_def)

section \<open>The handshake\<close>

text \<open>
  Claim C3. When \<^verbatim>\<open>_handleHello\<close> handles a Hello with a socket attached and an interval
  that converts to a string (every number does), it writes exactly one frame: an Identify
  frame (opcode 2) if \<^verbatim>\<open>resuming\<close> is false, and otherwise a Resume frame (opcode 6) whose
  payload carries the token, the stored \<^verbatim>\<open>sessionID\<close> and the stored
  \<^verbatim>\<open>lastSequenceNum\<close>. So an Identify frame is written iff \<^verbatim>\<open>resuming\<close> is false, and a
  Resume frame iff it is true.
\<close>

theorem hello_identify_or_resume:
  assumes "socket st = Some k" and "js_toString interval = Inr ms"
  shows "sent (events_of (handleHello interval st)) =
           [if resuming st = False
            then \<lparr>f_op = 2, f_d = identify_payload st, f_s = JNull, f_t = JNull\<rparr>
            else \<lparr>f_op = 6,
                  f_d = JObj [(''token'', token st),
                              (''session_id'', sessionID st),
                              (''seq'', lastSequenceNum st)],
                  f_s = JNull, f_t = JNull\<rparr>]
         \<and> ((\<exists>f \<in> set (sent (events_of (handleHello interval st))). f_op f = 2)
              \<longleftrightarrow> resuming st = False)
         \<and> ((\<exists>f \<in> set (sent (events_of (handleHello interval st))). f_op f = 6)
              \<longleftrightarrow> resuming st = True)"
proof -
  have "sent (events_of (handleHello interval st)) =
           [if resuming st = False
            then \<lparr>f_op = 2, f_d = identify_payload st, f_s = JNull, f_t = JNull\<rparr>
            else \<lparr>f_op = 6,
                  f_d = JObj [(''token'', token st),
                              (''session_id'', sessionID st),
                              (''seq'', lastSequenceNum st)],
                  f_s = JNull, f_t = JNull\<rparr>]"
    using assms
    by (simp add: handleHello_def setInterval_def Let_def lift_def seq_def emit_def modify_def
        sendOpcode_connected identify_payload_def resume_payload_def)
  then show ?thesis by simp
qed

theorem hello_identify_or_resume_witness:
  "socket connected_client = Some 0
   \<and> js_toString (JNum 45000) = Inr ''45000''
   \<and> sent (events_of (handleHello (JNum 45000) connected_client)) =
        [\<lparr>f_op = 2, f_d = identify_payload connected_client, f_s = JNull, f_t = JNull\<rparr>]
   \<and> socket resuming_client = Some 1
   \<and> sent (events_of (handleHello (JNum 45000) resuming_client)) =
        [\<lparr>f_op = 6,
          f_d = JObj [(''token'', JStr ''secret''), (''session_id'', JStr ''abc''),
                      (''seq'', JNum 1)],
          f_s = JNull, f_t = JNull\<rparr>]"
proof -
  have a: "socket connected_client = Some 0" and a': "resuming connected_client = False"
    by (simp_all add: connected_client_eq fresh_client_def)
  have b: "js_toString (JNum 45000) = Inr ''45000''"
    by simp
  have c: "socket resuming_client = Some 1" and c': "resuming resuming_client = True"
    and c'': "token resuming_client = JStr ''secret''" "sessionID resuming_client = JStr ''abc''"
      "lastSequenceNum resuming_client = JNum 1"
    by (simp_all add: resuming_client_eq established_client_eq connected_client_eq
        fresh_client_def)
  have 1: "sent (events_of (handleHello (JNum 45000) connected_client)) =
        [\<lparr>f_op = 2, f_d = identify_payload connected_client, f_s = JNull, f_t = JNull\<rparr>]"
    using hello_identify_or_resume [OF a b] a' by simp
  have 2: "sent (events_of (handleHello (JNum 45000) resuming_client)) =
        [\<lparr>f_op = 6,
          f_d = JObj [(''token'', JStr ''secret''), (''session_id'', JStr ''abc''),
                      (''seq'', JNum 1)],
          f_s = JNull, f_t = JNull\<rparr>]"
    using hello_identify_or_resume [OF c b] c' c'' by simp
  show ?thesis
    by (intro conjI) (rule a b c 1 2)+
qed

lemma handshakes_one_timer:
  "one_stored_timer st \<Longrightarrow> (\<not> armed \<longrightarrow> timers st = []) \<Longrightarrow>
   hello_follows_reconnect armed evs \<Longrightarrow> one_stored_timer (run_handshakes evs st)"
proof (induction evs arbitrary: st armed)
  case Nil
  then show ?case by simp
next
  case (Cons e evs)
  show ?case
  proof (cases e)
    case (Hello interval)
    have empty: "timers st = []" and rest: "hello_follows_reconnect True evs"
      using Cons.prems Hello by simp_all
    have "one_stored_timer (state_of (handleHello interval st))"
      using handleHello_timers [of interval st] empty by (auto simp: one_stored_timer_def split: list.splits)
    then have "one_stored_timer (run_handshakes evs (state_of (handleHello interval st)))"
      using rest Cons.IH [of "state_of (handleHello interval st)" True] by simp
    then show ?thesis using Hello by simp
  next
    case Reconnect
    have "timers (state_of (reconnect st)) = []"
      using Cons.prems(1) reconnect_timers [of st]
      by (auto simp: one_stored_timer_def split: option.splits list.splits)
    moreover have "hello_follows_reconnect False evs"
      using Cons.prems Reconnect by simp
    ultimately have "one_stored_timer (run_handshakes evs (state_of (reconnect st)))"
      using Cons.IH [of "state_of (reconnect st)" False] by (simp add: one_stored_timer_def split: list.splits)
    then show ?thesis using Reconnect by simp
  next
    case (Connected r)
    have "one_stored_timer (state_of (gatewayConnect_settled r st))"
      and "\<not> armed \<longrightarrow> timers (state_of (gatewayConnect_settled r st)) = []"
      using Cons.prems gatewayConnect_settled_timers [of r st]
      by (simp_all add: one_stored_timer_def split: list.splits)
    moreover have "hello_follows_reconnect armed evs"
      using Cons.prems Connected by simp
    ultimately have "one_stored_timer (run_handshakes evs (state_of (gatewayConnect_settled r st)))"
      using Cons.IH by blast
    then show ?thesis using Connected by simp
  qed
qed

text \<open>
  Claim C4, as stated, does not hold: \<^verbatim>\<open>_handleHello\<close> arms a new interval timer and
  cancels none. After two Hellos with no reconnect in between, both timers are armed.
\<close>

theorem hello_twice_two_timers:
  "timers (run_handshakes [Hello (JNum 45000), Hello (JNum 45000)] connected_client) = [0, 1]"
  by (simp add: connected_client_eq fresh_client_def handleHello_def setInterval_def
      sendOpcode_connected identify_payload_def Let_def lift_def seq_def emit_def modify_def)

text \<open>
  Claim C4, amended. \<^verbatim>\<open>_handleHello\<close> keeps every timer that was armed; it is
  \<^verbatim>\<open>reconnect()\<close> that cancels the stored heartbeat timer. So after any sequence of Hello
  receptions, reconnects and completed connection attempts in which each Hello but the
  first follows a reconnect, starting with no timer armed, at most one timer is armed.
\<close>

theorem reconnect_cancels_timer:
  "set (timers st) \<subseteq> set (timers (state_of (handleHello interval st)))
   \<and> (heartbeatIntervalObj st = Some h \<longrightarrow> h \<notin> set (timers (state_of (reconnect st))))
   \<and> (timers st = [] \<and> hello_follows_reconnect False evs \<longrightarrow>
        length (timers (run_handshakes evs st)) \<le> 1)"
proof (intro conjI impI)
  show "set (timers st) \<subseteq> set (timers (state_of (handleHello interval st)))"
    using handleHello_timers [of interval st] by auto
next
  assume "heartbeatIntervalObj st = Some h"
  then show "h \<notin> set (timers (state_of (reconnect st)))"
    using reconnect_timers [of st] by simp
next
  assume a: "timers st = [] \<and> hello_follows_reconnect False evs"
  then have "one_stored_timer (run_handshakes evs st)"
    using handshakes_one_timer [of st False evs] by (simp add: one_stored_timer_def split: list.splits)
  then show "length (timers (run_handshakes evs st)) \<le> 1"
    by (auto simp: one_stored_timer_def split: list.splits)
qed

theorem reconnect_cancels_timer_witness:
  "heartbeatIntervalObj awaiting_ack_client = Some 0
   \<and> 0 \<notin> set (timers (state_of (reconnect awaiting_ack_client)))
   \<and> timers connected_client = []
   \<and> hello_follows_reconnect False
        [Hello (JNum 45000), Reconnect, Connected (Inr gateway_response), Hello (JNum 45000)]
   \<and> length (timers (run_handshakes
        [Hello (JNum 45000), Reconnect, Connected (Inr gateway_response), Hello (JNum 45000)]
        connected_client)) \<le> 1"
proof -
  have a: "heartbeatIntervalObj awaiting_ack_client = Some 0"
    by (simp add: awaiting_ack_client_eq)
  have b: "timers connected_client = []"
    by (simp add: connected_client_eq fresh_client_def)
  have c: "hello_follows_reconnect False
        [Hello (JNum 45000), Reconnect, Connected (Inr gateway_response), Hello (JNum 45000)]"
    by simp
  have 1: "0 \<notin> set (timers (state_of (reconnect awaiting_ack_client)))"
    using reconnect_cancels_timer [of awaiting_ack_client "JNum 45000" 0 "[]"] a by blast
  have 2: "length (timers (run_handshakes
        [Hello (JNum 45000), Reconnect, Connected (Inr gateway_response), Hello (JNum 45000)]
        connected_client)) \<le> 1"
    using reconnect_cancels_timer [of connected_client "JNum 45000" 0
        "[Hello (JNum 45000), Reconnect, Connected (Inr gateway_response), Hello (JNum 45000)]"]
      b c by blast
  show ?thesis
    by (intro conjI) (rule a b c 1 2)+
qed

section \<open>The Identify payload\<close>

lemma identify_payload_cong:
  "token st' = token st \<Longrightarrow> intents st' = intents st \<Longrightarrow>
   identify_payload st' = identify_payload st"
  by (simp add: identify_payload_def)

lemma identify_ok_seq:
  assumes "\<And>s. identify_ok s (f s)" and "\<And>s. identify_ok s (g s)"
  shows "identify_ok st (seq f g st)"
proof -
  obtain r es st' where f: "f st = (r, es, st')"
    by (cases "f st") auto
  obtain r' es' st'' where g: "g st' = (r', es', st'')"
    by (cases "g st'") auto
  have 1: "identify_ok st (r, es, st')" and 2: "identify_ok st' (r', es', st'')"
    using assms(1) [of st] assms(2) [of st'] f g by simp_all
  have p: "identify_payload st' = identify_payload st"
    using 1 by (intro identify_payload_cong) (simp_all add: identify_ok_def)
  show ?thesis
  proof (cases r)
    case Done
    then have "seq f g st = (r', es @ es', st'')"
      by (simp add: seq_def f g)
    then show ?thesis
      using 1 2 by (simp add: identify_ok_def sent_append ball_Un p)
  next
    case (Threw e)
    then have "seq f g st = (Threw e, es, st')"
      by (simp add: seq_def f)
    then show ?thesis using 1 Threw by simp
  qed
qed

lemma identify_ok_lift:
  assumes "\<And>x s. identify_ok s (k x s)"
  shows "identify_ok st (lift v k st)"
  using assms by (cases v) (simp_all add: lift_def identify_ok_def)

lemma identify_ok_try_catch:
  assumes "\<And>s. identify_ok s (f s)" and "\<And>s. identify_ok s (g s)"
  shows "identify_ok st (try_catch f g st)"
proof -
  obtain r es st' where f: "f st = (r, es, st')"
    by (cases "f st") auto
  obtain r' es' st'' where g: "g st' = (r', es', st'')"
    by (cases "g st'") auto
  have 1: "identify_ok st (r, es, st')" and 2: "identify_ok st' (r', es', st'')"
    using assms(1) [of st] assms(2) [of st'] f g by simp_all
  have p: "identify_payload st' = identify_payload st"
    using 1 by (intro identify_payload_cong) (simp_all add: identify_ok_def)
  show ?thesis
  proof (cases r)
    case Done
    then have "try_catch f g st = (Done, es, st')"
      by (simp add: try_catch_def f)
    then show ?thesis using 1 Done by simp
  next
    case (Threw e)
    then have "try_catch f g st = (r', es @ es', st'')"
      by (simp add: try_catch_def f g)
    then show ?thesis
      using 1 2 by (simp add: identify_ok_def sent_append ball_Un p)
  qed
qed

lemma identify_ok_ret [simp]: "identify_ok st (ret st)"
  by (simp add: identify_ok_def)

lemma identify_ok_throw [simp]: "identify_ok st (throw e st)"
  by (simp add: identify_ok_def)

lemma identify_ok_emit: "sent [e] = [] \<Longrightarrow> identify_ok st (emit e st)"
  by (simp add: identify_ok_def)

lemma identify_ok_modify:
  "token (f st) = token st \<Longrightarrow> intents (f st) = intents st \<Longrightarrow> identify_ok st (modify f st)"
  by (simp add: identify_ok_def)

lemma identify_ok_sendOpcode:
  "opc \<noteq> 2 \<or> d = identify_payload st \<Longrightarrow> identify_ok st (sendOpcode opc d st)"
  by (cases "socket st")
     (auto simp: sendOpcode_connected sendOpcode_unconnected identify_ok_def)

lemma identify_ok_clearInterval: "identify_ok st (clearInterval h st)"
  by (simp add: clearInterval_def identify_ok_def)

lemma identify_ok_gatewayConnect: "identify_ok st (gatewayConnect st)"
  unfolding gatewayConnect_def
  by (intro identify_ok_seq identify_ok_emit) simp_all

lemma identify_ok_reconnect: "identify_ok st (reconnect st)"
  unfolding reconnect_def
  by (intro identify_ok_seq identify_ok_modify identify_ok_clearInterval
      identify_ok_gatewayConnect) simp_all

lemma identify_ok_heartbeat: "identify_ok st (heartbeat st)"
proof (cases "heartbeatAcknowledged st")
  case True
  have "identify_ok st
          (seq (modify (\<lambda>st. st\<lparr>heartbeatAcknowledged := False\<rparr>))
               (\<lambda>st. sendOpcode 1 (lastSequenceNum st) st) st)"
    by (intro identify_ok_seq identify_ok_modify identify_ok_sendOpcode) simp_all
  then show ?thesis using True by (simp add: heartbeat_def)
next
  case False
  have "identify_ok st
          (seq (emit (Log ''warn'' ''No heartbeat ACK. Reconnecting'' None)) reconnect st)"
    by (intro identify_ok_seq identify_ok_emit identify_ok_reconnect) simp_all
  then show ?thesis using False by (simp add: heartbeat_def)
qed

lemma identify_ok_emitEvent:
  assumes "\<And>d s. identify_ok s (k d s)"
  shows "identify_ok st (emitEvent n d k st)"
proof (cases "js_toString n")
  case (Inl e)
  then show ?thesis by (simp add: emitEvent_def lift_def identify_ok_def)
next
  case (Inr key)
  show ?thesis
  proof (cases "dispatchCallbacks st key")
    case None
    then show ?thesis using Inr assms by (simp add: emitEvent_def lift_def)
  next
    case (Some cb)
    obtain r d' where cb: "cb d = (r, d')"
      by (cases "cb d") auto
    show ?thesis
    proof (cases r)
      case Done
      have "identify_ok st (seq (emit (EventCallback key d)) (k (payload_after d d')) st)"
        by (intro identify_ok_seq identify_ok_emit assms) simp
      then show ?thesis using Inr Some cb Done by (simp add: emitEvent_def lift_def)
    next
      case (Threw e)
      then show ?thesis
        using Inr Some cb by (simp add: emitEvent_def lift_def identify_ok_def)
    qed
  qed
qed

lemma identify_ok_handleDispatch: "identify_ok st (handleDispatch n d st)"
  unfolding handleDispatch_def
  apply (intro identify_ok_lift identify_ok_seq identify_ok_emitEvent identify_ok_emit)
   apply simp
  apply (auto simp: identify_ok_def Let_def proj_simps
      split: outcome.splits option.splits sum.splits json.splits)
  done

lemma identify_ok_handleHello: "identify_ok st (handleHello interval st)"
proof (cases "js_toString interval")
  case (Inl e)
  then show ?thesis by (simp add: handleHello_def setInterval_def lift_def identify_ok_def)
next
  case (Inr ms)
  let ?st1 = "st\<lparr>timers := timers st @ [timer_count st], timer_count := Suc (timer_count st)\<rparr>"
  let ?k = "seq (modify (\<lambda>s. s\<lparr>heartbeatIntervalObj := Some (timer_count st)\<rparr>))
         (lift (js_toString interval) (\<lambda>ms.
          seq (emit (Log ''log'' (''Heartbeat set to '' @ ms @ ''ms'') None))
              (\<lambda>st. if resuming st = False
                     then sendOpcode 2 (identify_payload st) st
                     else sendOpcode 6 (resume_payload st) st)))"
  have send: "\<And>s. identify_ok s
       (if resuming s = False then sendOpcode 2 (identify_payload s) s
        else sendOpcode 6 (resume_payload s) s)"
    by (simp add: identify_ok_sendOpcode)
  have "\<And>s. identify_ok s (seq (emit (SetInterval (timer_count st) interval)) ?k s)"
    by (intro identify_ok_seq identify_ok_lift identify_ok_emit identify_ok_modify send) simp_all
  then have "identify_ok ?st1 (seq (emit (SetInterval (timer_count st) interval)) ?k ?st1)"
    by blast
  moreover have "handleHello interval st = seq (emit (SetInterval (timer_count st) interval)) ?k ?st1"
    using Inr by (simp add: handleHello_def setInterval_def lift_def Let_def)
  ultimately show ?thesis
    by (simp add: identify_ok_def identify_payload_def)
qed

lemma identify_ok_if:
  "identify_ok st (a st) \<Longrightarrow> identify_ok st (b st) \<Longrightarrow> identify_ok st ((if c then a else b) st)"
  by simp

lemma identify_ok_invalid_session:
  "identify_ok st (case socket st of None \<Rightarrow> ret st | Some k \<Rightarrow> emit (SocketEnd k) st)"
  by (simp add: identify_ok_def split: option.splits)

lemma identify_ok_handleGatewayObject: "identify_ok st (handleGatewayObject obj st)"
  unfolding handleGatewayObject_def Let_def
  by (intro identify_ok_lift identify_ok_seq identify_ok_emit identify_ok_if
      identify_ok_heartbeat identify_ok_reconnect identify_ok_handleHello
      identify_ok_handleDispatch identify_ok_modify identify_ok_ret
      identify_ok_invalid_session) simp_all

lemma identify_ok_on_data: "identify_ok st (on_data JSON_parse data st)"
  unfolding on_data_def
  by (intro identify_ok_try_catch identify_ok_seq identify_ok_emit)
     (simp_all add: identify_ok_handleGatewayObject split: option.splits)

lemma identify_ok_on_end: "identify_ok st (on_end st)"
  unfolding on_end_def
  by (intro identify_ok_seq identify_ok_emit identify_ok_clearInterval) simp_all

lemma identify_ok_gatewayConnect_settled: "identify_ok st (gatewayConnect_settled r st)"
  by (simp add: gatewayConnect_settled_def gatewayConnect_resolved_def Let_def proj_simps
      identify_ok_def split: sum.splits outcome.splits option.splits)

lemma identify_ok_joinVoiceChannel_settled:
  "identify_ok st (joinVoiceChannel_settled c m d r st)"
  unfolding joinVoiceChannel_settled_def
  by (intro identify_ok_lift identify_ok_if identify_ok_sendOpcode identify_ok_emit) simp_all

lemma identify_ok_step: "identify_ok st (step JSON_parse i st)"
proof (cases i)
  case (SocketData data)
  then show ?thesis by (simp add: identify_ok_on_data)
next
  case SocketEnded
  then show ?thesis by (simp add: identify_ok_on_end)
next
  case (SocketHostDisconnect data)
  then show ?thesis by (simp add: on_host_disconnect_def identify_ok_emit)
next
  case (TimerTick h)
  then show ?thesis by (simp add: identify_ok_heartbeat)
next
  case (GatewaySettled r)
  then show ?thesis by (simp add: identify_ok_gatewayConnect_settled)
next
  case (JoinVoiceSettled c m d r)
  then show ?thesis by (simp add: identify_ok_joinVoiceChannel_settled)
next
  case CallReconnect
  then show ?thesis by (simp add: identify_ok_reconnect)
next
  case (CallOnEvent n cb)
  then show ?thesis by (simp add: onEvent_def Let_def identify_ok_modify)
next
  case (CallRegisterCommand k cb)
  then show ?thesis by (simp add: registerCommand_def identify_ok_modify)
next
  case (CallStatusUpdate a b c d)
  then show ?thesis by (simp add: statusUpdate_def identify_ok_sendOpcode)
next
  case (CallCreateMessage c m)
  then show ?thesis by (simp add: createMessage_def identify_ok_emit)
next
  case (CallJoinVoiceChannel c)
  then show ?thesis by (simp add: joinVoiceChannel_def identify_ok_emit)
next
  case (CallLeaveVoiceChannel g)
  then show ?thesis by (simp add: leaveVoiceChannel_def identify_ok_sendOpcode)
qed

lemma hello_data_events:
  "step example_parse (SocketData hello_text) connected_client =
     (Done,
      [Log ''log'' ''Received OP 10: Hello'' (Some 5),
       SetInterval 0 (JNum 45000),
       Log ''log'' ''Heartbeat set to 45000ms'' None,
       Log ''log'' ''Sending OP 2: Identify'' (Some 5),
       SocketWrite 0
         \<lparr>f_op = 2, f_d = identify_payload connected_client, f_s = JNull, f_t = JNull\<rparr>],
      connected_client\<lparr>heartbeatIntervalObj := Some 0, timers := [0], timer_count := 1\<rparr>)"
proof -
  have p: "example_parse hello_text = Some hello_frame"
    by (simp add: example_parse_def hello_text_def dispatch_text_def ack_text_def quoted_def)
  show ?thesis
    by (simp add: p on_data_def try_catch_def hello_frame_def handleGatewayObject_def
        handleHello_def setInterval_def connected_client_eq fresh_client_def
        sendOpcode_connected identify_payload_def GatewayOpcodes_def show_name_def
        Let_def lift_def seq_def emit_def modify_def)
qed

text \<open>
  Claim C9, as stated, does not hold: the presence object of the Identify frame has the
  key \<^verbatim>\<open>game\<close>, not \<^verbatim>\<open>activity\<close>.
\<close>

theorem identify_presence_uses_game:
  "map frame_presence (identify_frames (events_of (handleHello (JNum 45000) connected_client))) =
     [Inr (JObj [(''since'', JNull), (''status'', JStr ''online''), (''game'', JNull),
                 (''afk'', JBool False)])]
   \<and> Inr presence_with_activity \<notin>
       set (map frame_presence
              (identify_frames (events_of (handleHello (JNum 45000) connected_client))))"
  by (simp add: connected_client_eq fresh_client_def handleHello_def setInterval_def
      sendOpcode_connected identify_payload_def identify_frames_def frame_presence_def
      presence_with_activity_def Let_def lift_def seq_def emit_def modify_def)

text \<open>
  Claim C9, amended. Every frame with opcode 2 that the client writes, whatever the input
  that makes it write, carries \<^verbatim>\<open>compress\<close> equal to false, \<^verbatim>\<open>large_threshold\<close> equal to
  100, and the presence object
  \<^verbatim>\<open>{since: null, status: "online", game: null, afk: false}\<close>.
\<close>

theorem identify_frame_fields:
  assumes "f \<in> set (sent (events_of (step JSON_parse i st)))" and "f_op f = 2"
  shows "get_prop (f_d f) ''compress'' = Inr (JBool False)
       \<and> get_prop (f_d f) ''large_threshold'' = Inr (JNum 100)
       \<and> get_prop (f_d f) ''presence'' =
           Inr (JObj [(''since'', JNull), (''status'', JStr ''online''), (''game'', JNull),
                      (''afk'', JBool False)])"
proof -
  have "f_d f = identify_payload st"
    using assms identify_ok_step [of st JSON_parse i] by (simp add: identify_ok_def)
  then show ?thesis by (simp add: identify_payload_def)
qed

theorem identify_frame_fields_witness:
  "\<lparr>f_op = 2, f_d = identify_payload connected_client, f_s = JNull, f_t = JNull\<rparr>
     \<in> set (sent (events_of (step example_parse (SocketData hello_text) connected_client)))
   \<and> get_prop (identify_payload connected_client) ''compress'' = Inr (JBool False)
   \<and> get_prop (identify_payload connected_client) ''large_threshold'' = Inr (JNum 100)
   \<and> get_prop (identify_payload connected_client) ''presence'' =
       Inr (JObj [(''since'', JNull), (''status'', JStr ''online''), (''game'', JNull),
                  (''afk'', JBool False)])"
proof -
  let ?f = "\<lparr>f_op = 2, f_d = identify_payload connected_client, f_s = JNull, f_t = JNull\<rparr>"
  have a: "?f \<in> set (sent (events_of (step example_parse (SocketData hello_text) connected_client)))"
    unfolding hello_data_events by simp
  have b: "f_op ?f = 2"
    by simp
  show ?thesis
    using a identify_frame_fields [OF a b] by simp
qed

section \<open>Commands\<close>

lemma message_create_key:
  "replaceAll_space_underscore (toUpperCase ''message create'') = ''MESSAGE_CREATE''"
  by code_simp

lemma listening_client_eq:
  "listening_client =
     ping_client\<lparr>dispatchCallbacks := [''MESSAGE_CREATE'' \<mapsto> quiet_callback]\<rparr>"
  by (simp add: listening_client_def onEvent_def message_create_key ping_client_eq
      connected_client_eq fresh_client_def)

lemma throwing_client_eq:
  "throwing_client =
     ping_client\<lparr>dispatchCallbacks := [''MESSAGE_CREATE'' \<mapsto> throwing_callback]\<rparr>"
  by (simp add: throwing_client_def onEvent_def message_create_key ping_client_eq
      connected_client_eq fresh_client_def)

lemma rewriting_client_eq:
  "rewriting_client =
     ping_client\<lparr>dispatchCallbacks := [''MESSAGE_CREATE'' \<mapsto> rewriting_callback]\<rparr>"
  by (simp add: rewriting_client_def onEvent_def message_create_key ping_client_eq
      connected_client_eq fresh_client_def)

text \<open>
  Claim C10, as stated, does not hold. \<^verbatim>\<open>_handleDispatch\<close> first calls the callback
  registered for MESSAGE_CREATE with the payload object. On a message with empty content,
  a callback that throws makes \<^verbatim>\<open>_handleDispatch\<close> throw, and a callback that sets the
  content to \<^verbatim>\<open>!ping\<close> makes the command branch run and call the command callback.
\<close>

theorem empty_content_callback_interferes:
  "handleDispatch (JStr ''MESSAGE_CREATE'') empty_message throwing_client =
     (Threw (CallbackError ''boom''),
      [Log ''log'' ''Dispatch event: MESSAGE_CREATE'' (Some 4),
       EventCallback ''MESSAGE_CREATE'' empty_message],
      throwing_client)
   \<and> handleDispatch (JStr ''MESSAGE_CREATE'') empty_message rewriting_client =
     (Done,
      [Log ''log'' ''Dispatch event: MESSAGE_CREATE'' (Some 4),
       EventCallback ''MESSAGE_CREATE'' empty_message,
       Log ''log'' ''Command received: ping'' None,
       CommandCallback ''ping'' (JObj [(''content'', JStr ''!ping'')]) ''ping''],
      rewriting_client)"
  by (simp add: empty_message_def throwing_client_eq rewriting_client_eq ping_client_eq
      connected_client_eq fresh_client_def throwing_callback_def rewriting_callback_def
      payload_after_def handleDispatch_def emitEvent_def ping_strings ping_callback_def
      Let_def lift_def seq_def emit_def modify_def ret_def)

text \<open>
  Claim C10, amended. For a MESSAGE_CREATE dispatch whose event callback, if one is
  registered, returns normally, and whose \<^verbatim>\<open>content\<close> is the empty string when
  \<^verbatim>\<open>_handleDispatch\<close> reads it after that call: \<^verbatim>\<open>_handleDispatch\<close> returns normally
  and calls no command callback; besides its log call and the call of the event callback
  it has no effect. Indexing the empty string gives \<^verbatim>\<open>undefined\<close>, which is not the
  command prefix, whatever string that is.
\<close>

theorem empty_content_no_command:
  assumes "event_callback_returns st ''MESSAGE_CREATE'' data"
    and "get_prop (payload_read st ''MESSAGE_CREATE'' data) ''content'' = Inr (JStr [])"
  shows "outcome_of (handleDispatch (JStr ''MESSAGE_CREATE'') data st) = Done
       \<and> events_of (handleDispatch (JStr ''MESSAGE_CREATE'') data st) =
           Log ''log'' ''Dispatch event: MESSAGE_CREATE'' (Some 4) #
           (case dispatchCallbacks st ''MESSAGE_CREATE'' of
              None \<Rightarrow> []
            | Some cb \<Rightarrow> [EventCallback ''MESSAGE_CREATE'' data])
       \<and> (\<forall>word d rest.
             CommandCallback word d rest
               \<notin> set (events_of (handleDispatch (JStr ''MESSAGE_CREATE'') data st)))"
proof (cases "dispatchCallbacks st ''MESSAGE_CREATE''")
  case None
  then have "get_prop data ''content'' = Inr (JStr [])"
    using assms(2) by (simp add: payload_read_def)
  then have "handleDispatch (JStr ''MESSAGE_CREATE'') data st =
               (Done, [Log ''log'' ''Dispatch event: MESSAGE_CREATE'' (Some 4)], st)"
    using None
    by (simp add: handleDispatch_def emitEvent_def lift_def seq_def emit_def ret_def)
  then show ?thesis using None by simp
next
  case (Some cb)
  obtain r d' where cb: "cb data = (r, d')"
    by (cases "cb data") auto
  have r: "r = Done"
    using assms(1) Some cb by (simp add: event_callback_returns_def)
  have "get_prop (payload_after data d') ''content'' = Inr (JStr [])"
    using assms(2) Some cb by (simp add: payload_read_def)
  then have "handleDispatch (JStr ''MESSAGE_CREATE'') data st =
               (Done,
                [Log ''log'' ''Dispatch event: MESSAGE_CREATE'' (Some 4),
                 EventCallback ''MESSAGE_CREATE'' data],
                st)"
    using Some cb r
    by (simp add: handleDispatch_def emitEvent_def lift_def seq_def emit_def ret_def)
  then show ?thesis using Some by simp
qed

theorem empty_content_no_command_witness:
  "event_callback_returns ping_client ''MESSAGE_CREATE'' empty_message
   \<and> get_prop (payload_read ping_client ''MESSAGE_CREATE'' empty_message) ''content'' =
       Inr (JStr [])
   \<and> outcome_of (handleDispatch (JStr ''MESSAGE_CREATE'') empty_message ping_client) = Done
   \<and> events_of (handleDispatch (JStr ''MESSAGE_CREATE'') empty_message ping_client) =
       [Log ''log'' ''Dispatch event: MESSAGE_CREATE'' (Some 4)]
   \<and> event_callback_returns listening_client ''MESSAGE_CREATE'' empty_message
   \<and> get_prop (payload_read listening_client ''MESSAGE_CREATE'' empty_message) ''content'' =
       Inr (JStr [])
   \<and> outcome_of (handleDispatch (JStr ''MESSAGE_CREATE'') empty_message listening_client) = Done
   \<and> events_of (handleDispatch (JStr ''MESSAGE_CREATE'') empty_message listening_client) =
       [Log ''log'' ''Dispatch event: MESSAGE_CREATE'' (Some 4),
        EventCallback ''MESSAGE_CREATE'' empty_message]"
proof -
  have n: "dispatchCallbacks ping_client ''MESSAGE_CREATE'' = None"
    by (simp add: ping_client_eq connected_client_eq fresh_client_def)
  have l: "dispatchCallbacks listening_client ''MESSAGE_CREATE'' = Some quiet_callback"
    by (simp add: listening_client_eq)
  have a1: "event_callback_returns ping_client ''MESSAGE_CREATE'' empty_message"
    using n by (simp add: event_callback_returns_def)
  have a2: "get_prop (payload_read ping_client ''MESSAGE_CREATE'' empty_message) ''content'' =
       Inr (JStr [])"
    using n by (simp add: payload_read_def empty_message_def)
  have b1: "event_callback_returns listening_client ''MESSAGE_CREATE'' empty_message"
    using l by (simp add: event_callback_returns_def quiet_callback_def)
  have b2: "get_prop (payload_read listening_client ''MESSAGE_CREATE'' empty_message) ''content'' =
       Inr (JStr [])"
    using l by (simp add: payload_read_def quiet_callback_def payload_after_def empty_message_def)
  have 1: "outcome_of (handleDispatch (JStr ''MESSAGE_CREATE'') empty_message ping_client) = Done"
    and 2: "events_of (handleDispatch (JStr ''MESSAGE_CREATE'') empty_message ping_client) =
       [Log ''log'' ''Dispatch event: MESSAGE_CREATE'' (Some 4)]"
    using empty_content_no_command [OF a1 a2] n by simp_all
  have 3: "outcome_of (handleDispatch (JStr ''MESSAGE_CREATE'') empty_message listening_client) = Done"
    and 4: "events_of (handleDispatch (JStr ''MESSAGE_CREATE'') empty_message listening_client) =
       [Log ''log'' ''Dispatch event: MESSAGE_CREATE'' (Some 4),
        EventCallback ''MESSAGE_CREATE'' empty_message]"
    using empty_content_no_command [OF b1 b2] l by simp_all
  show ?thesis
    by (intro conjI) (rule a1 a2 b1 b2 1 2 3 4)+
qed

text \<open>With arguments after the command word, the callback gets what follows the first
  space.\<close>

lemma command_with_arguments:
  "handleDispatch (JStr ''MESSAGE_CREATE'') (JObj [(''content'', JStr ''!Ping hello world'')])
     ping_client =
     (Done,
      [Log ''log'' ''Dispatch event: MESSAGE_CREATE'' (Some 4),
       Log ''log'' ''Command received: ping'' None,
       CommandCallback ''ping'' (JObj [(''content'', JStr ''!Ping hello world'')])
         ''hello world''],
      ping_client)"
proof -
  have "substr ''!Ping hello world'' 1 16 = ''Ping hello world''"
    "toLowerCase (split_space_first ''Ping hello world'') = ''ping''"
    "indexOf_space ''Ping hello world'' = 4"
    "substr ''Ping hello world'' 5 12 = ''hello world''"
    by code_simp+
  then show ?thesis
    by (simp add: ping_client_eq connected_client_eq fresh_client_def handleDispatch_def
        emitEvent_def ping_callback_def Let_def lift_def seq_def emit_def modify_def ret_def)
qed

text \<open>
  Claim C5. For the Dispatch frame with event MESSAGE_CREATE, sequence 7 and content
  \<^verbatim>\<open>!ping\<close>, with the command \<^verbatim>\<open>ping\<close> registered, \<^verbatim>\<open>lastSequenceNum\<close> becomes 7 and the
  callback is called, but with the remainder \<^verbatim>\<open>ping\<close>: without a space \<^verbatim>\<open>indexOf\<close> is
  \<open>-1\<close>, and \<^verbatim>\<open>substr(0, 5)\<close> is the whole command.
\<close>

theorem ping_remainder_is_whole_command:
  "handleGatewayObject ping_frame ping_client =
     (Done,
      [Log ''log'' ''Received OP 0: Dispatch'' (Some 5),
       Log ''log'' ''Dispatch event: MESSAGE_CREATE'' (Some 4),
       Log ''log'' ''Command received: ping'' None,
       CommandCallback ''ping'' (JObj [(''content'', JStr ''!ping'')]) ''ping''],
      ping_client\<lparr>lastSequenceNum := JNum 7\<rparr>)"
  by (simp add: ping_frame_def ping_client_eq connected_client_eq fresh_client_def
      handleGatewayObject_def handleDispatch_def emitEvent_def ping_strings ping_callback_def
      GatewayOpcodes_def show_name_def
      Let_def lift_def seq_def emit_def modify_def ret_def)

section \<open>Joining a voice channel\<close>

text \<open>
  What \<^verbatim>\<open>joinVoiceChannel\<close> does once the channel lookup has settled: a channel of type 2
  gives one Voice State Update frame, another channel object a warning, and a rejected
  lookup is rethrown to the caller.
\<close>

lemma joinVoiceChannel_voice:
  assumes "socket st = Some k" and "get_prop channelObj ''type'' = Inr (JNum 2)"
    and "get_prop channelObj ''guild_id'' = Inr guild"
  shows "sent (events_of
           (joinVoiceChannel_settled channelID selfMute selfDeaf (Inr channelObj) st)) =
           [\<lparr>f_op = 4,
             f_d = JObj [(''guild_id'', guild), (''channel_id'', JStr channelID),
                         (''self_mute'', selfMute), (''self_deaf'', selfDeaf)],
             f_s = JNull, f_t = JNull\<rparr>]"
proof -
  have "truthy channelObj"
    using assms(2) by (cases channelObj) auto
  then show ?thesis
    using assms by (simp add: joinVoiceChannel_settled_def lift_def sendOpcode_connected)
qed

lemma joinVoiceChannel_non_voice:
  assumes "truthy channelObj" and "get_prop channelObj ''type'' = Inr ty" and "ty \<noteq> JNum 2"
  shows "joinVoiceChannel_settled channelID selfMute selfDeaf (Inr channelObj) st =
           (Done, [Log ''warning'' ''joinVoiceChannel called on a non-voice channel'' None], st)"
proof -
  obtain g where "get_prop channelObj ''guild_id'' = Inr g"
    using assms(2) get_prop_twice by blast
  then show ?thesis
    using assms by (simp add: joinVoiceChannel_settled_def lift_def emit_def)
qed

lemma joinVoiceChannel_rejected:
  "joinVoiceChannel_settled channelID selfMute selfDeaf (Inl e) st = (Threw e, [], st)"
  by (simp add: joinVoiceChannel_settled_def lift_def throw_def)

text \<open>
  Claim C8. When the lookup resolves to \<^verbatim>\<open>null\<close> or \<^verbatim>\<open>undefined\<close>, reading
  \<^verbatim>\<open>channelObj.guild_id\<close> throws a TypeError before the test \<^verbatim>\<open>if (channelObj)\<close> is
  reached: the error goes to the caller and no warning is logged.
\<close>

theorem joinVoiceChannel_null_channel_throws:
  "joinVoiceChannel_settled ''42'' (JBool False) (JBool False) (Inr JNull) connected_client =
     (Threw TypeError, [], connected_client)
   \<and> joinVoiceChannel_settled ''42'' (JBool False) (JBool False) (Inr JUndefined)
       connected_client =
     (Threw TypeError, [], connected_client)"
  by (simp add: joinVoiceChannel_settled_def lift_def throw_def)

end
